theory Spec2Isabelle
  imports Complex_Main "HOL-Library.Word"
begin

unbundle bit_operations_syntax

section \<open>Platform values\<close>

text \<open>
  The examination client is a browser program.  Its byte buffers are typed arrays
  (\<open>Uint8Array\<close>, \<open>Int16Array\<close>), its binary strings are sequences of 16-bit code units,
  and its numbers are IEEE doubles.  Every arithmetic step the codec performs on a sample
  (a scaling by the power of two 32768, a truncation, a division by 32768) is exact on
  doubles, so a finite number is modelled by the real it denotes and the only special
  value kept is \<open>NaN\<close>, which an out-of-range typed-array read produces.
\<close>

type_synonym byte = "8 word"
type_synonym int16 = "16 word"
type_synonym code_unit = "16 word"

datatype number = Num real | NaN

datatype error =
    InvalidCharacterError
  | RangeError
  | NotSupportedError
  | SyntaxError
  | TypeError

section \<open>Transport text: \<open>btoa\<close> and \<open>atob\<close>\<close>

text \<open>
  \<open>btoa\<close> and \<open>atob\<close> are the browser's base64 functions (forgiving-base64 encode and
  decode of the HTML standard).  \<open>b64char\<close> is the base64 alphabet, \<open>b64val\<close> its inverse.
\<close>

definition b64char :: "nat \<Rightarrow> char" where
  "b64char n =
     (if n < 26 then char_of (n + 65)
      else if n < 52 then char_of (n + 71)
      else if n < 62 then char_of (n - 4)
      else if n = 62 then CHR ''+''
      else CHR ''/'')"

definition b64val :: "char \<Rightarrow> nat option" where
  "b64val c =
     (let k = (of_char c :: nat) in
      if 65 \<le> k \<and> k \<le> 90 then Some (k - 65)
      else if 97 \<le> k \<and> k \<le> 122 then Some (k - 71)
      else if 48 \<le> k \<and> k \<le> 57 then Some (k + 4)
      else if c = CHR ''+'' then Some 62
      else if c = CHR ''/'' then Some 63
      else None)"

text \<open>Three bytes become four alphabet characters; a tail of one or two bytes is padded.\<close>

fun b64encode :: "nat list \<Rightarrow> string" where
  "b64encode [] = []"
| "b64encode [a] =
     [b64char (a div 4), b64char ((a mod 4) * 16), CHR ''='', CHR ''='']"
| "b64encode [a, b] =
     [b64char (a div 4), b64char ((a mod 4) * 16 + b div 16),
      b64char ((b mod 16) * 4), CHR ''='']"
| "b64encode (a # b # c # rest) =
     [b64char (a div 4), b64char ((a mod 4) * 16 + b div 16),
      b64char ((b mod 16) * 4 + c div 64), b64char (c mod 64)] @ b64encode rest"

text \<open>
  \<open>btoa\<close> throws when a code unit of its argument exceeds 255 and otherwise encodes the
  code units as bytes.
\<close>

definition btoa :: "code_unit list \<Rightarrow> error + string" where
  "btoa s =
     (if list_all (\<lambda>u. unat u \<le> 255) s then Inr (b64encode (map unat s))
      else Inl InvalidCharacterError)"

definition ascii_whitespace :: "char \<Rightarrow> bool" where
  "ascii_whitespace c \<longleftrightarrow> (of_char c :: nat) \<in> {9, 10, 12, 13, 32}"

definition strip_padding :: "string \<Rightarrow> string" where
  "strip_padding d =
     (if length d mod 4 = 0 then
        (if 2 \<le> length d \<and> drop (length d - 2) d = ''=='' then take (length d - 2) d
         else if 1 \<le> length d \<and> drop (length d - 1) d = ''='' then take (length d - 1) d
         else d)
      else d)"

text \<open>Four sextets give three bytes; a tail of two or three sextets gives one or two.\<close>

fun b64decode :: "nat list \<Rightarrow> nat list" where
  "b64decode (w # x # y # z # rest) =
     [w * 4 + x div 16, (x mod 16) * 16 + y div 4, (y mod 4) * 64 + z] @ b64decode rest"
| "b64decode [w, x, y] = [w * 4 + x div 16, (x mod 16) * 16 + y div 4]"
| "b64decode [w, x] = [w * 4 + x div 16]"
| "b64decode _ = []"

definition atob :: "string \<Rightarrow> error + code_unit list" where
  "atob d =
     (let d1 = filter (\<lambda>c. \<not> ascii_whitespace c) d;
          d2 = strip_padding d1
      in if length d2 mod 4 = 1 then Inl InvalidCharacterError
         else if list_ex (\<lambda>c. b64val c = None) d2 then Inl InvalidCharacterError
         else Inr (map of_nat (b64decode (map (\<lambda>c. the (b64val c)) d2))))"

section \<open>The codec of the examination room\<close>

text \<open>\<open>String.fromCharCode\<close> of a byte and \<open>charCodeAt\<close> stored into a \<open>Uint8Array\<close>.\<close>

definition fromCharCode :: "byte \<Rightarrow> code_unit" where
  "fromCharCode b = ucast b"

definition toUint8 :: "code_unit \<Rightarrow> byte" where
  "toUint8 u = ucast u"

text \<open>
  \<open>encode\<close>: the loop appends one code unit per byte to \<open>binary\<close>, then calls \<open>btoa\<close>.
\<close>

definition encode :: "byte list \<Rightarrow> error + string" where
  "encode bytes =
     btoa (foldl (\<lambda>binary i. binary @ [fromCharCode (bytes ! i)]) [] [0..<length bytes])"

text \<open>
  \<open>decode\<close>: \<open>atob\<close>, then a zero-filled \<open>Uint8Array\<close> of the string's length is written
  index by index.
\<close>

definition decode :: "string \<Rightarrow> error + byte list" where
  "decode base64 =
     (case atob base64 of
        Inl e \<Rightarrow> Inl e
      | Inr binaryString \<Rightarrow>
          Inr (foldl (\<lambda>bytes i. bytes[i := toUint8 (binaryString ! i)])
                 (replicate (length binaryString) 0) [0..<length binaryString]))"

section \<open>PCM samples\<close>

text \<open>
  Storing a number into an \<open>Int16Array\<close> truncates it towards zero and keeps the low
  16 bits (\<open>NaN\<close> becomes 0): there is no clamping.
\<close>

definition trunc :: "real \<Rightarrow> int" where
  "trunc x = (if 0 \<le> x then \<lfloor>x\<rfloor> else \<lceil>x\<rceil>)"

definition toInt16 :: "number \<Rightarrow> int16" where
  "toInt16 v = (case v of NaN \<Rightarrow> 0 | Num x \<Rightarrow> word_of_int (trunc x))"

definition multiply_by :: "number \<Rightarrow> real \<Rightarrow> number" where
  "multiply_by v k = (case v of NaN \<Rightarrow> NaN | Num x \<Rightarrow> Num (x * k))"

definition divide_by :: "number \<Rightarrow> real \<Rightarrow> number" where
  "divide_by v k = (case v of NaN \<Rightarrow> NaN | Num x \<Rightarrow> Num (x / k))"

text \<open>
  Reading an \<open>Int16Array\<close>: the signed value of the element, and \<open>undefined\<close> out of
  range, which arithmetic turns into \<open>NaN\<close>.
\<close>

definition readInt16 :: "int16 list \<Rightarrow> nat \<Rightarrow> number" where
  "readInt16 a k = (if k < length a then Num (real_of_int (sint (a ! k))) else NaN)"

text \<open>
  The two views of one buffer: \<open>new Uint8Array(int16.buffer)\<close> lists the bytes of every
  element, low byte first, and \<open>new Int16Array(data.buffer)\<close> reads them back in pairs;
  it throws a \<open>RangeError\<close> when the byte length is odd.
\<close>

definition int16_bytes :: "int16 \<Rightarrow> byte list" where
  "int16_bytes w = [ucast w, ucast (drop_bit 8 w)]"

definition Uint8Array_of :: "int16 list \<Rightarrow> byte list" where
  "Uint8Array_of a = concat (map int16_bytes a)"

fun int16_pairs :: "byte list \<Rightarrow> int16 list" where
  "int16_pairs (lo # hi # rest) = (ucast lo OR push_bit 8 (ucast hi)) # int16_pairs rest"
| "int16_pairs _ = []"

definition Int16Array_of :: "byte list \<Rightarrow> error + int16 list" where
  "Int16Array_of data =
     (if length data mod 2 = 0 then Inr (int16_pairs data) else Inl RangeError)"

text \<open>
  The conversion loop of \<open>scriptProcessor.onaudioprocess\<close>:
  \<open>int16[i] = inputData[i] * 32768\<close> for every index of a zero-filled \<open>Int16Array\<close>.
\<close>

definition pcm_int16 :: "number list \<Rightarrow> int16 list" where
  "pcm_int16 inputData =
     (let l = length inputData in
      foldl (\<lambda>int16 i. int16[i := toInt16 (multiply_by (inputData ! i) 32768)])
        (replicate l 0) [0..<l])"

section \<open>Audio buffers\<close>

text \<open>
  Of an audio context the model keeps its clock and the limits within which it creates
  buffers.  \<open>createBuffer\<close> converts the frame count to an unsigned integer by truncation
  (a typed array has fewer than \<open>2 ^ 32\<close> elements, so the conversion never wraps) and
  throws \<open>NotSupportedError\<close> when the channel count, the length or the sample rate is
  zero or outside the supported range; otherwise the buffer holds zero-filled channels.
  Clock readings and durations are reals: the rounding of a sum of two times is not
  modelled.
\<close>

record AudioContext =
  currentTime :: real
  maxChannels :: nat
  minSampleRate :: nat
  maxSampleRate :: nat

record AudioBuffer =
  channelData :: "number list list"
  frames :: nat
  sampleRate :: nat

definition duration :: "AudioBuffer \<Rightarrow> real" where
  "duration b = real (frames b) / real (sampleRate b)"

definition createBuffer :: "AudioContext \<Rightarrow> nat \<Rightarrow> real \<Rightarrow> nat \<Rightarrow> error + AudioBuffer" where
  "createBuffer ctx numberOfChannels len rate =
     (if numberOfChannels = 0 \<or> maxChannels ctx < numberOfChannels
         \<or> nat \<lfloor>len\<rfloor> = 0
         \<or> rate < minSampleRate ctx \<or> maxSampleRate ctx < rate \<or> rate = 0
      then Inl NotSupportedError
      else Inr \<lparr>channelData = replicate numberOfChannels (replicate (nat \<lfloor>len\<rfloor>) (Num 0)),
                frames = nat \<lfloor>len\<rfloor>, sampleRate = rate\<rparr>)"

text \<open>
  \<open>decodeAudioData\<close>: \<open>frameCount\<close> is the quotient of two numbers and need not be an
  integer; the inner loop runs while \<open>i < frameCount\<close>, and a write past the end of a
  channel is ignored, as typed arrays do.
\<close>

definition decodeAudioData ::
    "byte list \<Rightarrow> AudioContext \<Rightarrow> nat \<Rightarrow> nat \<Rightarrow> error + AudioBuffer" where
  "decodeAudioData data ctx rate numChannels =
     (case Int16Array_of data of
        Inl e \<Rightarrow> Inl e
      | Inr dataInt16 \<Rightarrow>
          let frameCount = real (length dataInt16) / real numChannels in
          (case createBuffer ctx numChannels frameCount rate of
             Inl e \<Rightarrow> Inl e
           | Inr buffer \<Rightarrow>
               Inr (foldl
                 (\<lambda>buffer channel.
                    buffer\<lparr>channelData := (channelData buffer)[channel :=
                      foldl
                        (\<lambda>channelData i.
                           channelData[i :=
                             divide_by (readInt16 dataInt16 (i * numChannels + channel)) 32768])
                        (channelData buffer ! channel)
                        [0..<nat \<lceil>frameCount\<rceil>]]\<rparr>)
                 buffer [0..<numChannels])))"

section \<open>The examination room\<close>

subsection \<open>Data\<close>

datatype Role = User | Examiner

record TranscriptionEntry =
  role :: Role
  entryText :: string
  timestamp :: nat
  avatar :: "string option"
  senderName :: "string option"

record Persona =
  personaId :: string
  personaLabel :: string
  description :: string
  icon :: string
  instruction :: string
  voiceName :: string

datatype ExamStatus = IDLE | CONNECTING | ACTIVE | FINISHED | ERROR

text \<open>A realtime input sent to the session; \<open>mediaData\<close> is \<open>None\<close> for \<open>undefined\<close>.\<close>

record Media =
  mediaData :: "string option"
  mimeType :: string

text \<open>
  An inbound message.  Of every part of a model turn the handler reads only
  \<open>inlineData?.data\<close>, which is what a part is here; a transcription that is present
  is its text, taken to be a string.
\<close>

record ServerContent =
  modelTurn :: "string option list option"
  outputTranscription :: "string option"
  inputTranscription :: "string option"
  turnComplete :: bool
  interrupted :: bool

record LiveServerMessage =
  serverContent :: "ServerContent option"

datatype callback = StartSession | ClearAnalyzing

text \<open>
  The component's state: its React state, its refs, the status last reported to the parent
  through \<open>onStatusChange\<close>, and a record of the effects it had on the platform.  A
  buffer source node is the number of nodes created before it; \<open>sourcesRef\<close> lists the set
  in insertion order.  \<open>started\<close> logs every \<open>source.start(when)\<close>, \<open>stopped\<close> every
  \<open>source.stop()\<close>, \<open>closed\<close> every \<open>session.close()\<close>, \<open>sent\<close> every
  \<open>sendRealtimeInput\<close>, \<open>connects\<close> counts the calls of \<open>ai.live.connect\<close>,
  \<open>pendingSends\<close> holds the continuations registered on \<open>sessionPromise\<close> that have not
  run yet, and \<open>timeouts\<close> the pending \<open>setTimeout\<close> callbacks with their delays in
  milliseconds.
\<close>

record state =
  transcriptions :: "TranscriptionEntry list"
  isExaminerSpeaking :: bool
  isAnalyzing :: bool
  currentInputText :: string
  currentOutputText :: string
  currentInputTextRef :: string
  currentOutputTextRef :: string
  errorMessage :: "string option"
  isActive :: bool
  nextStartTimeRef :: real
  inputAudioContextRef :: bool
  outputAudioContextRef :: bool
  sourcesRef :: "nat list"
  sessionRef :: "nat option"
  streamRef :: "nat option"
  frameIntervalRef :: bool
  isClosingRef :: bool
  status :: ExamStatus
  sourceCount :: nat
  started :: "(nat \<times> real) list"
  stopped :: "nat list"
  closed :: "nat list"
  stoppedStreams :: "nat list"
  pendingSends :: "Media list"
  sent :: "Media list"
  connects :: nat
  timeouts :: "(nat \<times> callback) list"

text \<open>The state of a freshly mounted component in the status the parent gives it.\<close>

definition initial_state :: state where
  "initial_state =
     \<lparr>transcriptions = [], isExaminerSpeaking = False, isAnalyzing = False,
      currentInputText = [], currentOutputText = [],
      currentInputTextRef = [], currentOutputTextRef = [],
      errorMessage = None, isActive = False, nextStartTimeRef = 0,
      inputAudioContextRef = False, outputAudioContextRef = False,
      sourcesRef = [], sessionRef = None, streamRef = None,
      frameIntervalRef = False, isClosingRef = False, status = CONNECTING,
      sourceCount = 0, started = [], stopped = [], closed = [], stoppedStreams = [],
      pendingSends = [], sent = [], connects = 0, timeouts = []\<rparr>"

text \<open>A handler either returns or throws after the effects it had so far.\<close>

datatype outcome = Returned state | Threw error state

subsection \<open>Teardown and connection\<close>

text \<open>\<open>Set.add\<close> and \<open>Set.delete\<close> on the insertion-ordered set of active sources.\<close>

definition set_add :: "nat \<Rightarrow> nat list \<Rightarrow> nat list" where
  "set_add x xs = (if x \<in> set xs then xs else xs @ [x])"

definition set_delete :: "nat \<Rightarrow> nat list \<Rightarrow> nat list" where
  "set_delete x xs = filter (\<lambda>y. y \<noteq> x) xs"

definition stopActiveSession :: "state \<Rightarrow> state" where
  "stopActiveSession st =
     (let st1 = (case sessionRef st of
                   None \<Rightarrow> st
                 | Some s \<Rightarrow> st\<lparr>closed := closed st @ [s], sessionRef := None\<rparr>);
          st2 = (if frameIntervalRef st1 then st1\<lparr>frameIntervalRef := False\<rparr> else st1);
          st3 = st2\<lparr>stopped := stopped st2 @ sourcesRef st2\<rparr>;
          st4 = st3\<lparr>sourcesRef := []\<rparr>
      in st4\<lparr>isExaminerSpeaking := False\<rparr>)"

text \<open>
  What the platform answers to one run of \<open>startSession\<close>: whether resuming the audio
  contexts succeeds, the stream \<open>getUserMedia\<close> grants (or its rejection), and the session
  \<open>ai.live.connect\<close> resolves to (or its rejection).  A run is taken as one step: no
  other event is placed between its awaits.
\<close>

record SessionIO =
  resumeOk :: bool
  getUserMedia :: "nat option"
  connectResult :: "nat option"

definition startSession_catch :: "state \<Rightarrow> state" where
  "startSession_catch st =
     st\<lparr>errorMessage := Some ''Microphone/Camera access error.'', status := ERROR\<rparr>"

definition startSession :: "SessionIO \<Rightarrow> state \<Rightarrow> state" where
  "startSession io st =
     (let st1 = stopActiveSession (st\<lparr>errorMessage := None\<rparr>);
          st2 = st1\<lparr>inputAudioContextRef := True, outputAudioContextRef := True\<rparr>
      in if \<not> resumeOk io then startSession_catch st2
         else
           (case (case streamRef st2 of None \<Rightarrow> getUserMedia io | Some m \<Rightarrow> Some m) of
              None \<Rightarrow> startSession_catch st2
            | Some m \<Rightarrow>
                let st3 = st2\<lparr>streamRef := Some m\<rparr>;
                    st4 = st3\<lparr>connects := Suc (connects st3)\<rparr>
                in (case connectResult io of
                      None \<Rightarrow> startSession_catch st4
                    | Some s \<Rightarrow> st4\<lparr>sessionRef := Some s\<rparr>)))"

text \<open>The effect that mounts the room, and its cleanup.\<close>

definition mount :: "SessionIO \<Rightarrow> state \<Rightarrow> state" where
  "mount io st = startSession io (st\<lparr>isClosingRef := False\<rparr>)"

definition teardown :: "state \<Rightarrow> state" where
  "teardown st =
     (let st1 = stopActiveSession (st\<lparr>isClosingRef := True\<rparr>)
      in case streamRef st1 of
           None \<Rightarrow> st1
         | Some m \<Rightarrow> st1\<lparr>stoppedStreams := stoppedStreams st1 @ [m], streamRef := None\<rparr>)"

text \<open>
  The channel's \<open>onopen\<close>, \<open>onerror\<close> and \<open>onclose\<close> callbacks.  \<open>onopen\<close> reports the
  status, wires the audio tap and starts the frame interval.
\<close>

definition onopen :: "state \<Rightarrow> state" where
  "onopen st = st\<lparr>status := ACTIVE, isActive := True, frameIntervalRef := True\<rparr>"

definition onerror :: "state \<Rightarrow> state" where
  "onerror st =
     (let st1 = st\<lparr>errorMessage := Some ''System error. Restarting...''\<rparr>
      in st1\<lparr>timeouts := timeouts st1 @ [(1500, StartSession)]\<rparr>)"

definition onclose :: "state \<Rightarrow> state" where
  "onclose st = st\<lparr>isActive := False\<rparr>"

text \<open>
  The event loop fires the pending timeout at position \<open>k\<close>: the timeout is removed and its
  callback runs.
\<close>

definition fireTimeout :: "SessionIO \<Rightarrow> nat \<Rightarrow> state \<Rightarrow> state" where
  "fireTimeout io k st =
     (if k < length (timeouts st) then
        (let st1 = st\<lparr>timeouts := take k (timeouts st) @ drop (Suc k) (timeouts st)\<rparr>
         in case snd (timeouts st ! k) of
              StartSession \<Rightarrow> startSession io st1
            | ClearAnalyzing \<Rightarrow> st1\<lparr>isAnalyzing := False\<rparr>)
      else st)"

subsection \<open>The capture producers\<close>

definition pcmBlob :: "number list \<Rightarrow> error + Media" where
  "pcmBlob inputData =
     (case encode (Uint8Array_of (pcm_int16 inputData)) of
        Inl e \<Rightarrow> Inl e
      | Inr t \<Rightarrow> Inr \<lparr>mediaData = Some t, mimeType = ''audio/pcm;rate=16000''\<rparr>)"

text \<open>
  \<open>scriptProcessor.onaudioprocess\<close>: the guard, the conversion of the block, and the
  continuation registered on \<open>sessionPromise\<close>.
\<close>

definition onaudioprocess :: "number list \<Rightarrow> state \<Rightarrow> outcome" where
  "onaudioprocess inputData st =
     (if isClosingRef st \<or> sessionRef st = None then Returned st
      else (case pcmBlob inputData of
              Inl e \<Rightarrow> Threw e st
            | Inr blob \<Rightarrow> Returned (st\<lparr>pendingSends := pendingSends st @ [blob]\<rparr>)))"

text \<open>\<open>String.prototype.split\<close> on a one-character separator.\<close>

fun split :: "char \<Rightarrow> string \<Rightarrow> string list" where
  "split sep [] = [[]]"
| "split sep (c # cs) =
     (if c = sep then [] # split sep cs
      else (case split sep cs of
              [] \<Rightarrow> [[c]]
            | w # ws \<Rightarrow> (c # w) # ws))"

definition second :: "string list \<Rightarrow> string option" where
  "second ws = (case ws of _ # w # _ \<Rightarrow> Some w | _ \<Rightarrow> None)"

text \<open>
  What the page offers to one tick of the frame interval: whether the video and canvas
  elements are mounted, whether the canvas gives a 2d context, and the data URL the canvas
  produces for the frame.
\<close>

record Page =
  videoRef :: bool
  canvasRef :: bool
  context2d :: bool
  dataUrl :: string

definition frameInterval :: "Page \<Rightarrow> state \<Rightarrow> state" where
  "frameInterval page st =
     (if videoRef page \<and> canvasRef page \<and> \<not> isClosingRef st \<and> sessionRef st \<noteq> None then
        (if context2d page then
           (let base64Data = second (split CHR '','' (dataUrl page));
                st1 = st\<lparr>isAnalyzing := True\<rparr>;
                st2 = st1\<lparr>timeouts := timeouts st1 @ [(200, ClearAnalyzing)]\<rparr>
            in st2\<lparr>pendingSends := pendingSends st2 @
                 [\<lparr>mediaData = base64Data, mimeType = ''image/jpeg''\<rparr>]\<rparr>)
         else st)
      else st)"

text \<open>
  The oldest continuation registered on \<open>sessionPromise\<close> runs with the value \<open>s\<close> the
  promise resolved to: it sends its payload if \<open>s\<close> is a session and the closing flag is
  not set.
\<close>

definition runPendingSend :: "nat option \<Rightarrow> state \<Rightarrow> state" where
  "runPendingSend s st =
     (case pendingSends st of
        [] \<Rightarrow> st
      | m # ms \<Rightarrow>
          (let st1 = st\<lparr>pendingSends := ms\<rparr>
           in if s \<noteq> None \<and> \<not> isClosingRef st1 then st1\<lparr>sent := sent st1 @ [m]\<rparr>
              else st1))"

datatype producer_event =
    AudioProcess "number list"
  | FrameTick Page
  | SendContinuation "nat option"

definition producer_step :: "state \<Rightarrow> producer_event \<Rightarrow> state" where
  "producer_step st ev =
     (case ev of
        AudioProcess inputData \<Rightarrow>
          (case onaudioprocess inputData st of Returned st' \<Rightarrow> st' | Threw e st' \<Rightarrow> st')
      | FrameTick page \<Rightarrow> frameInterval page st
      | SendContinuation s \<Rightarrow> runPendingSend s st)"

subsection \<open>Inbound messages\<close>

text \<open>
  What a run of \<open>onmessage\<close> reads from outside the message: the output audio context, the
  selected persona, and the two readings of \<open>Date.now()\<close>.
\<close>

record Env =
  outputContext :: AudioContext
  selectedPersona :: Persona
  dateNowUser :: nat
  dateNowExaminer :: nat

definition base64Audio :: "LiveServerMessage \<Rightarrow> string option" where
  "base64Audio message =
     (case serverContent message of
        None \<Rightarrow> None
      | Some sc \<Rightarrow>
          (case modelTurn sc of
             None \<Rightarrow> None
           | Some ps \<Rightarrow> (case ps of [] \<Rightarrow> None | p # _ \<Rightarrow> p)))"

definition decodeAudio :: "AudioContext \<Rightarrow> string \<Rightarrow> error + AudioBuffer" where
  "decodeAudio ctx b =
     (case decode b of
        Inl e \<Rightarrow> Inl e
      | Inr data \<Rightarrow> decodeAudioData data ctx 24000 1)"

definition audioBranch :: "Env \<Rightarrow> LiveServerMessage \<Rightarrow> state \<Rightarrow> outcome" where
  "audioBranch env message st =
     (case base64Audio message of
        None \<Rightarrow> Returned st
      | Some b \<Rightarrow>
          if b = [] then Returned st
          else
            (let ctx = outputContext env;
                 st1 = st\<lparr>isExaminerSpeaking := True\<rparr>;
                 st2 = st1\<lparr>nextStartTimeRef := max (nextStartTimeRef st1) (currentTime ctx)\<rparr>
             in case decodeAudio ctx b of
                  Inl e \<Rightarrow> Threw e st2
                | Inr audioBuffer \<Rightarrow>
                    (let source = sourceCount st2;
                         st3 = st2\<lparr>sourceCount := Suc source\<rparr>;
                         st4 = st3\<lparr>started := started st3 @ [(source, nextStartTimeRef st3)]\<rparr>;
                         st5 = st4\<lparr>nextStartTimeRef :=
                                 nextStartTimeRef st4 + duration audioBuffer\<rparr>
                     in Returned (st5\<lparr>sourcesRef := set_add source (sourcesRef st5)\<rparr>))))"

text \<open>The listener a source gets for its \<open>ended\<close> event.\<close>

definition onended :: "nat \<Rightarrow> state \<Rightarrow> state" where
  "onended source st =
     (let st1 = st\<lparr>sourcesRef := set_delete source (sourcesRef st)\<rparr>
      in if sourcesRef st1 = [] then st1\<lparr>isExaminerSpeaking := False\<rparr> else st1)"

definition transcriptionBranch :: "LiveServerMessage \<Rightarrow> state \<Rightarrow> state" where
  "transcriptionBranch message st =
     (case serverContent message of
        None \<Rightarrow> st
      | Some sc \<Rightarrow>
          (case outputTranscription sc of
             Some t \<Rightarrow>
               st\<lparr>currentOutputTextRef := currentOutputTextRef st @ t,
                  currentOutputText := currentOutputText st @ t\<rparr>
           | None \<Rightarrow>
               (case inputTranscription sc of
                  Some t \<Rightarrow>
                    st\<lparr>currentInputTextRef := currentInputTextRef st @ t,
                       currentInputText := currentInputText st @ t\<rparr>
                | None \<Rightarrow> st)))"

text \<open>
  The turn-complete branch.  The candidate's avatar is the code point U+1F464, written as
  its four UTF-8 bytes.
\<close>

definition turnCompleteSignal :: "LiveServerMessage \<Rightarrow> bool" where
  "turnCompleteSignal message =
     (case serverContent message of None \<Rightarrow> False | Some sc \<Rightarrow> turnComplete sc)"

definition turnCompleteBranch :: "Env \<Rightarrow> LiveServerMessage \<Rightarrow> state \<Rightarrow> state" where
  "turnCompleteBranch env message st =
     (if turnCompleteSignal message then
        (let finalInput = currentInputTextRef st;
             finalOutput = currentOutputTextRef st;
             next1 = transcriptions st;
             next2 = (if finalInput \<noteq> [] then
                        next1 @ [\<lparr>role = User, entryText = finalInput,
                                   timestamp = dateNowUser env,
                                   avatar = Some [CHR 0xF0, CHR 0x9F, CHR 0x91, CHR 0xA4],
                                   senderName = Some ''Candidate''\<rparr>]
                      else next1);
             next3 = (if finalOutput \<noteq> [] then
                        next2 @ [\<lparr>role = Examiner, entryText = finalOutput,
                                   timestamp = dateNowExaminer env,
                                   avatar = Some (icon (selectedPersona env)),
                                   senderName = Some (personaLabel (selectedPersona env))\<rparr>]
                      else next2)
         in st\<lparr>transcriptions := next3,
               currentInputTextRef := [], currentOutputTextRef := [],
               currentInputText := [], currentOutputText := []\<rparr>)
      else st)"

definition interruptedSignal :: "LiveServerMessage \<Rightarrow> bool" where
  "interruptedSignal message =
     (case serverContent message of None \<Rightarrow> False | Some sc \<Rightarrow> interrupted sc)"

definition interruptedBranch :: "LiveServerMessage \<Rightarrow> state \<Rightarrow> state" where
  "interruptedBranch message st =
     (if interruptedSignal message then
        (let st1 = st\<lparr>stopped := stopped st @ sourcesRef st\<rparr>;
             st2 = st1\<lparr>sourcesRef := []\<rparr>;
             st3 = st2\<lparr>nextStartTimeRef := 0\<rparr>
         in st3\<lparr>isExaminerSpeaking := False\<rparr>)
      else st)"

definition onmessage :: "Env \<Rightarrow> LiveServerMessage \<Rightarrow> state \<Rightarrow> outcome" where
  "onmessage env message st =
     (case audioBranch env message st of
        Threw e st' \<Rightarrow> Threw e st'
      | Returned st1 \<Rightarrow>
          Returned (interruptedBranch message
            (turnCompleteBranch env message (transcriptionBranch message st1))))"

text \<open>Messages are handled in arrival order; a handler that throws leaves the rest to come.\<close>

fun onmessages :: "(Env \<times> LiveServerMessage) list \<Rightarrow> state \<Rightarrow> state" where
  "onmessages [] st = st"
| "onmessages ((env, message) # rest) st =
     (case onmessage env message st of
        Returned st' \<Rightarrow> onmessages rest st'
      | Threw e st' \<Rightarrow> onmessages rest st')"

section \<open>The evaluation report\<close>

datatype json =
    JNull
  | JBool bool
  | JNumber real
  | JString string
  | JArray "json list"
  | JObject "(string \<times> json) list"

record AppState =
  examStatus :: ExamStatus
  examStats :: json
  isGeneratingReport :: bool

text \<open>
  What the evaluation service answers: the call rejects, or it resolves to a response
  whose \<open>text\<close> may be undefined.
\<close>

datatype generateContent_result = Rejected | Response "string option"

definition fallbackReport :: json where
  "fallbackReport =
     JObject
       [(''grade'', JString ''B''),
        (''score'', JNumber 75),
        (''feedback'', JString
           ''Session completed successfully. Evaluation failed to generate, but completion is logged.''),
        (''strengths'', JArray [JString ''Punctuality'', JString ''Basic interaction'']),
        (''weaknesses'', JArray [JString ''Technical details unclear'']),
        (''topicsCovered'', JArray [JString ''General Physics''])]"

text \<open>The expression \<open>response.text || '{}'\<close>.\<close>

definition responseText :: "string option \<Rightarrow> string" where
  "responseText t = (case t of None \<Rightarrow> ''{}'' | Some s \<Rightarrow> if s = [] then ''{}'' else s)"

text \<open>
  \<open>generateReport\<close>, with \<open>JSON.parse\<close> as the parameter \<open>JSON_parse\<close>.  The parsed value
  is stored as it is: the cast to \<open>ExamStats\<close> checks nothing.
\<close>

definition generateReport ::
    "(string \<Rightarrow> error + json) \<Rightarrow> generateContent_result \<Rightarrow> AppState \<Rightarrow> AppState" where
  "generateReport JSON_parse result st =
     (let st1 = st\<lparr>isGeneratingReport := True\<rparr>;
          caught = st1\<lparr>examStats := fallbackReport\<rparr>;
          st2 = (case result of
                   Rejected \<Rightarrow> caught
                 | Response t \<Rightarrow>
                     (case JSON_parse (responseText t) of
                        Inl e \<Rightarrow> caught
                      | Inr stats \<Rightarrow> st1\<lparr>examStats := stats\<rparr>))
      in st2\<lparr>isGeneratingReport := False\<rparr>)"

text \<open>The fields the response schema requires.\<close>

definition requiredFields :: "string list" where
  "requiredFields =
     [''grade'', ''score'', ''feedback'', ''strengths'', ''weaknesses'', ''topicsCovered'']"

definition hasRequiredFields :: "json \<Rightarrow> bool" where
  "hasRequiredFields j =
     (case j of
        JObject kvs \<Rightarrow> list_all (\<lambda>k. k \<in> set (map fst kvs)) requiredFields
      | _ \<Rightarrow> False)"

text \<open>
  The report view of the application.  It is shown when the status is \<open>FINISHED\<close>; unless
  the report is being generated or \<open>examStats\<close> is falsy, it reads the fields of
  \<open>examStats\<close> and calls \<open>.map\<close> on \<open>strengths\<close>, \<open>weaknesses\<close> and \<open>topicsCovered\<close>.
  \<open>property\<close> reads one of these keys from a parsed value (of an object's duplicate keys
  the last one counts; any other value has none of them), and a \<open>.map\<close> call throws a
  \<open>TypeError\<close> on everything but an array.
\<close>

definition truthy :: "json \<Rightarrow> bool" where
  "truthy j =
     (case j of
        JNull \<Rightarrow> False
      | JBool b \<Rightarrow> b
      | JNumber x \<Rightarrow> x \<noteq> 0
      | JString s \<Rightarrow> s \<noteq> []
      | JArray _ \<Rightarrow> True
      | JObject _ \<Rightarrow> True)"

definition property :: "string \<Rightarrow> json \<Rightarrow> json option" where
  "property k j = (case j of JObject kvs \<Rightarrow> map_of (rev kvs) k | _ \<Rightarrow> None)"

definition isArray :: "json option \<Rightarrow> bool" where
  "isArray v = (case v of Some (JArray _) \<Rightarrow> True | _ \<Rightarrow> False)"

definition reportView :: "AppState \<Rightarrow> error option" where
  "reportView st =
     (if examStatus st = FINISHED \<and> \<not> isGeneratingReport st \<and> truthy (examStats st)
         \<and> list_ex (\<lambda>k. \<not> isArray (property k (examStats st)))
              [''strengths'', ''weaknesses'', ''topicsCovered'']
      then Some TypeError
      else None)"

section \<open>Values for evaluation\<close>

text \<open>
  An audio context at clock \<open>t\<close> with the limits every implementation has to support,
  and a persona of the room.
\<close>

definition audioContextAt :: "real \<Rightarrow> AudioContext" where
  "audioContextAt t =
     \<lparr>currentTime = t, maxChannels = 32, minSampleRate = 8000, maxSampleRate = 96000\<rparr>"

definition profSterling :: Persona where
  "profSterling =
     \<lparr>personaId = ''Charon'', personaLabel = ''Prof. Sterling'',
      description = ''The Academic: Strict, formal, and demands mathematical rigor. Speaks fluent Hinglish.'',
      icon = [char_of (0xF0::nat), char_of (0x9F::nat), char_of (0x91::nat), char_of (0xA8::nat),
              char_of (0xE2::nat), char_of (0x80::nat), char_of (0x8D::nat),
              char_of (0xF0::nat), char_of (0x9F::nat), char_of (0x92::nat), char_of (0xBC::nat)],
      instruction = ''You are Prof. Sterling. You are very strict and only accept precise, textbook definitions. You often interrupt students if they are vague. You use Hindi for transitions but expect technical terms in pure English. You are cold and professional.'',
      voiceName = ''Charon''\<rparr>"

text \<open>Messages that carry one thing each.\<close>

definition noContent :: ServerContent where
  "noContent =
     \<lparr>modelTurn = None, outputTranscription = None, inputTranscription = None,
      turnComplete = False, interrupted = False\<rparr>"

definition audioMessage :: "string \<Rightarrow> LiveServerMessage" where
  "audioMessage b = \<lparr>serverContent = Some (noContent\<lparr>modelTurn := Some [Some b]\<rparr>)\<rparr>"

definition outputFragment :: "string \<Rightarrow> LiveServerMessage" where
  "outputFragment t = \<lparr>serverContent = Some (noContent\<lparr>outputTranscription := Some t\<rparr>)\<rparr>"

definition inputFragment :: "string \<Rightarrow> LiveServerMessage" where
  "inputFragment t = \<lparr>serverContent = Some (noContent\<lparr>inputTranscription := Some t\<rparr>)\<rparr>"

definition bothFragments :: "string \<Rightarrow> string \<Rightarrow> LiveServerMessage" where
  "bothFragments out inp =
     \<lparr>serverContent =
        Some (noContent\<lparr>outputTranscription := Some out, inputTranscription := Some inp\<rparr>)\<rparr>"

definition turnCompleteMessage :: LiveServerMessage where
  "turnCompleteMessage = \<lparr>serverContent = Some (noContent\<lparr>turnComplete := True\<rparr>)\<rparr>"

definition interruptedMessage :: LiveServerMessage where
  "interruptedMessage = \<lparr>serverContent = Some (noContent\<lparr>interrupted := True\<rparr>)\<rparr>"

text \<open>A platform that grants stream 0 and connects session 1.\<close>

definition grantingIO :: SessionIO where
  "grantingIO = \<lparr>resumeOk = True, getUserMedia = Some 0, connectResult = Some 1\<rparr>"

text \<open>The application once the examination has ended, before its report.\<close>

definition finishedApp :: AppState where
  "finishedApp = \<lparr>examStatus = FINISHED, examStats = JNull, isGeneratingReport = False\<rparr>"

text \<open>
  A stand-in for \<open>JSON.parse\<close> that is right on the text it is applied to below:
  \<open>{}\<close> parses to the empty object.
\<close>

definition parseEmptyObject :: "string \<Rightarrow> error + json" where
  "parseEmptyObject s = (if s = ''{}'' then Inr (JObject []) else Inl SyntaxError)"

definition envAt :: "real \<Rightarrow> nat \<Rightarrow> Env" where
  "envAt t now =
     \<lparr>outputContext = audioContextAt t, selectedPersona = profSterling,
      dateNowUser = now, dateNowExaminer = now\<rparr>"

section \<open>Auxiliary functions of the proofs\<close>

text \<open>The sextets of a base64 encoding, and its padding, taken apart.\<close>

fun sextets :: "nat list \<Rightarrow> nat list" where
  "sextets [] = []"
| "sextets [a] = [a div 4, (a mod 4) * 16]"
| "sextets [a, b] = [a div 4, (a mod 4) * 16 + b div 16, (b mod 16) * 4]"
| "sextets (a # b # c # rest) =
     [a div 4, (a mod 4) * 16 + b div 16, (b mod 16) * 4 + c div 64, c mod 64] @ sextets rest"

fun padding :: "nat list \<Rightarrow> string" where
  "padding [] = []"
| "padding [a] = ''==''"
| "padding [a, b] = ''=''"
| "padding (a # b # c # rest) = padding rest"

section \<open>Loops over indices\<close>

lemma foldl_snoc_map: "foldl (\<lambda>acc i. acc @ [f i]) acc0 is = acc0 @ map f is"
  by (induction "is" arbitrary: acc0) auto

lemma foldl_update_map_aux:
  "k \<le> n \<Longrightarrow>
   foldl (\<lambda>xs i. xs[i := f i]) (replicate n z) [0..<k] = map f [0..<k] @ replicate (n - k) z"
proof (induction k)
  case 0
  then show ?case by simp
next
  case (Suc k)
  then have "n - k = Suc (n - Suc k)" by simp
  with Suc show ?case by (simp add: list_update_append replicate_app_Cons_same)
qed

lemma map_index: "map (\<lambda>i. f (xs ! i)) [0..<length xs] = map f xs"
  by (rule nth_equalityI) simp_all

lemma foldl_update_map:
  "foldl (\<lambda>xs i. xs[i := f i]) (replicate n z) [0..<n] = map f [0..<n]"
  using foldl_update_map_aux [of n n f z] by simp

section \<open>The base64 alphabet\<close>

lemma of_char_b64char:
  "n < 64 \<Longrightarrow> (of_char (b64char n) :: nat) =
     (if n < 26 then n + 65 else if n < 52 then n + 71 else if n < 62 then n - 4
      else if n = 62 then 43 else 47)"
  unfolding b64char_def by (simp add: take_bit_eq_mod)

lemma b64char_not_eq: "n < 64 \<Longrightarrow> b64char n \<noteq> CHR ''=''"
proof
  assume n: "n < 64" and "b64char n = CHR ''=''"
  then have "(of_char (b64char n) :: nat) = 61" by simp
  with n show False by (simp add: of_char_b64char split: if_splits)
qed

lemma b64char_not_ws: "n < 64 \<Longrightarrow> \<not> ascii_whitespace (b64char n)"
  unfolding ascii_whitespace_def by (simp add: of_char_b64char) arith

lemma b64val_b64char: "n < 64 \<Longrightarrow> b64val (b64char n) = Some n"
proof -
  assume n: "n < 64"
  have plus: "b64char n = CHR ''+'' \<longleftrightarrow> n = 62"
  proof
    assume "b64char n = CHR ''+''"
    then have "(of_char (b64char n) :: nat) = 43" by simp
    with n show "n = 62" by (simp add: of_char_b64char split: if_splits)
  qed (simp add: b64char_def)
  have slash: "b64char n = CHR ''/'' \<longleftrightarrow> n = 63"
  proof
    assume "b64char n = CHR ''/''"
    then have "(of_char (b64char n) :: nat) = 47" by simp
    with n show "n = 63" by (simp add: of_char_b64char split: if_splits)
  qed (simp add: b64char_def)
  from n show ?thesis
    unfolding b64val_def Let_def plus slash
    by (simp add: of_char_b64char) arith
qed

section \<open>Base64 decoding inverts encoding\<close>

lemma dec_enc3:
  "a < 256 \<Longrightarrow> b < 256 \<Longrightarrow> c < 256 \<Longrightarrow>
   b64decode ([a div 4, (a mod 4) * 16 + b div 16, (b mod 16) * 4 + c div 64, c mod 64] @ r)
     = [a, b, c] @ b64decode r"
  by simp

lemma dec_enc2:
  "a < 256 \<Longrightarrow> b < 256 \<Longrightarrow>
   b64decode [a div 4, (a mod 4) * 16 + b div 16, (b mod 16) * 4] = [a, b]"
  by simp

lemma dec_enc1: "a < 256 \<Longrightarrow> b64decode [a div 4, (a mod 4) * 16] = [a]"
  by simp

lemma b64encode_split: "b64encode bs = map b64char (sextets bs) @ padding bs"
  by (induction bs rule: sextets.induct) simp_all

lemma sextet_hi: "a < 256 \<Longrightarrow> a div 4 < (64::nat)"
  by simp

lemma sextet_mid1: "b < 256 \<Longrightarrow> (a mod 4) * 16 + b div 16 < (64::nat)"
proof -
  assume "b < 256"
  then have "b div 16 \<le> 15" by simp
  moreover have "a mod 4 \<le> 3" by simp
  ultimately show ?thesis by linarith
qed

lemma sextet_mid2: "c < 256 \<Longrightarrow> (b mod 16) * 4 + c div 64 < (64::nat)"
proof -
  assume "c < 256"
  then have "c div 64 \<le> 3" by simp
  moreover have "b mod 16 \<le> 15" by simp
  ultimately show ?thesis by linarith
qed

lemma sextets_bound:
  "\<forall>b \<in> set bs. b < 256 \<Longrightarrow> \<forall>s \<in> set (sextets bs). s < 64"
proof (induction bs rule: sextets.induct)
  case (4 a b c rest)
  then show ?case
    using sextet_hi [of a] sextet_mid1 [of b a] sextet_mid2 [of c b] by simp
next
  case (3 a b)
  then show ?case
    using sextet_hi [of a] sextet_mid1 [of b a] sextet_mid2 [of 0 b] by simp
next
  case (2 a)
  then show ?case
    using sextet_hi [of a] sextet_mid1 [of 0 a] by simp
qed simp

lemma b64decode_sextets: "\<forall>b \<in> set bs. b < 256 \<Longrightarrow> b64decode (sextets bs) = bs"
proof (induction bs rule: sextets.induct)
  case (4 a b c rest)
  then have "b64decode (sextets rest) = rest" by simp
  moreover from 4 have "a < 256" "b < 256" "c < 256" by simp_all
  ultimately show ?case using dec_enc3 [of a b c "sextets rest"] by simp
next
  case (3 a b)
  then have "a < 256" "b < 256" by simp_all
  then show ?case using dec_enc2 [of a b] by simp
next
  case (2 a)
  then have "a < 256" by simp
  then show ?case using dec_enc1 [of a] by simp
qed simp

lemma padding_cases:
  "(padding bs = [] \<and> length (sextets bs) mod 4 = 0)
   \<or> (padding bs = ''='' \<and> length (sextets bs) mod 4 = 3)
   \<or> (padding bs = ''=='' \<and> length (sextets bs) mod 4 = 2)"
  by (induction bs rule: sextets.induct) simp_all

lemma strip_padding_body:
  assumes "\<forall>c \<in> set body. c \<noteq> CHR ''=''"
    and "(p = [] \<and> length body mod 4 = 0) \<or> (p = ''='' \<and> length body mod 4 = 3)
         \<or> (p = ''=='' \<and> length body mod 4 = 2)"
  shows "strip_padding (body @ p) = body"
proof -
  consider (none) "p = []" "length body mod 4 = 0"
    | (one) "p = ''=''" "length body mod 4 = 3"
    | (two) "p = ''==''" "length body mod 4 = 2"
    using assms(2) by fastforce
  then show ?thesis
  proof cases
    case none
    show ?thesis
    proof (cases body rule: rev_cases)
      case Nil
      with none show ?thesis by (simp add: strip_padding_def)
    next
      case (snoc ys y)
      with assms(1) have "y \<noteq> CHR ''=''" by simp
      with none snoc show ?thesis by (simp add: strip_padding_def)
    qed
  next
    case one
    then have "body \<noteq> []" by auto
    then obtain ys y where snoc: "body = ys @ [y]" by (cases body rule: rev_cases) auto
    with assms(1) have "y \<noteq> CHR ''=''" by simp
    moreover from one have "length (body @ p) mod 4 = 0" by (simp add: mod_Suc)
    ultimately show ?thesis using one snoc by (simp add: strip_padding_def)
  next
    case two
    then have "length (body @ p) mod 4 = 0" by (simp add: mod_Suc)
    with two show ?thesis by (simp add: strip_padding_def)
  qed
qed

lemma b64encode_no_whitespace:
  assumes "\<forall>b \<in> set bs. b < 256"
  shows "filter (\<lambda>c. \<not> ascii_whitespace c) (b64encode bs) = b64encode bs"
proof -
  have "\<not> ascii_whitespace c" if "c \<in> set (b64encode bs)" for c
  proof -
    from that have "c \<in> b64char ` set (sextets bs) \<or> c \<in> set (padding bs)"
      by (auto simp: b64encode_split)
    moreover have "c = CHR ''=''" if "c \<in> set (padding bs)"
      using padding_cases [of bs] that by auto
    ultimately show ?thesis
      using sextets_bound [OF assms] b64char_not_ws by (auto simp: ascii_whitespace_def)
  qed
  then show ?thesis by (simp add: filter_id_conv)
qed

lemma atob_b64encode:
  assumes "\<forall>b \<in> set bs. b < 256"
  shows "atob (b64encode bs) = Inr (map of_nat bs)"
proof -
  let ?body = "map b64char (sextets bs)"
  have bound: "\<forall>s \<in> set (sextets bs). s < 64" by (rule sextets_bound [OF assms])
  have noeq: "\<forall>c \<in> set ?body. c \<noteq> CHR ''=''" using bound b64char_not_eq by auto
  have strip: "strip_padding (b64encode bs) = ?body"
    unfolding b64encode_split using noeq padding_cases [of bs]
    by (intro strip_padding_body) simp_all
  have len: "length ?body mod 4 \<noteq> 1" using padding_cases [of bs] by auto
  have valid: "\<not> list_ex (\<lambda>c. b64val c = None) ?body"
    using bound b64val_b64char by (auto simp: list_ex_iff)
  have vals: "map (\<lambda>c. the (b64val c)) ?body = sextets bs"
    using bound by (simp add: b64val_b64char map_idI)
  show ?thesis
    unfolding atob_def Let_def b64encode_no_whitespace [OF assms] strip
    using len valid by (simp only: vals b64decode_sextets [OF assms] if_False)
qed

section \<open>Bytes and code units\<close>

lemma ucast_byte_unit: "ucast (ucast b :: code_unit) = (b :: byte)"
  by (rule bit_word_eqI) (simp add: bit_simps)

lemma unat_ucast_byte: "unat (ucast (b :: byte) :: code_unit) = unat b"
proof -
  have "unat b < 2 ^ 8" using unsigned_less [of b] by simp
  then have "unat b < 2 ^ 16" by simp
  then show ?thesis by (simp add: unsigned_ucast_eq take_bit_nat_eq_self)
qed

lemma toUint8_fromCharCode: "toUint8 (fromCharCode b) = b"
  by (simp add: toUint8_def fromCharCode_def ucast_byte_unit)

lemma unat_fromCharCode: "unat (fromCharCode b) \<le> 255"
proof -
  have "unat b < 2 ^ 8" using unsigned_less [of b] by simp
  then show ?thesis by (simp add: fromCharCode_def unat_ucast_byte)
qed

lemma encode_eq: "encode bytes = Inr (b64encode (map (\<lambda>b. unat (fromCharCode b)) bytes))"
proof -
  have "foldl (\<lambda>binary i. binary @ [fromCharCode (bytes ! i)]) [] [0..<length bytes]
        = map fromCharCode bytes"
    by (simp add: foldl_snoc_map map_index)
  moreover have "list_all (\<lambda>u. unat u \<le> 255) (map fromCharCode bytes)"
    using unat_fromCharCode by (simp add: list_all_iff)
  ultimately show ?thesis by (simp add: encode_def btoa_def o_def)
qed

lemma decode_b64encode:
  "decode (b64encode (map (\<lambda>b. unat (fromCharCode b)) bytes)) = Inr bytes"
proof -
  let ?ns = "map (\<lambda>b. unat (fromCharCode b)) bytes"
  let ?s = "map of_nat ?ns :: code_unit list"
  have small: "\<forall>n \<in> set ?ns. n < 256"
  proof
    fix n
    assume "n \<in> set ?ns"
    then obtain b where "n = unat (fromCharCode b)" by auto
    with unat_fromCharCode [of b] show "n < 256" by simp
  qed
  have "foldl (\<lambda>bs i. bs[i := toUint8 (?s ! i)]) (replicate (length ?s) 0) [0..<length ?s]
        = map (\<lambda>i. toUint8 (?s ! i)) [0..<length ?s]"
    by (rule foldl_update_map)
  also have "\<dots> = map toUint8 ?s"
    by (rule map_index)
  also have "\<dots> = bytes"
    by (simp add: o_def toUint8_fromCharCode map_idI)
  finally show ?thesis
    unfolding decode_def atob_b64encode [OF small] by simp
qed

text \<open>
  C5.  For every byte sequence \<open>B\<close> the transport-text encoding succeeds, and decoding
  the text it produces gives back exactly \<open>B\<close>.
\<close>

theorem decode_encode: "\<exists>t. encode B = Inr t \<and> decode t = Inr B"
  using encode_eq [of B] decode_b64encode [of B] by blast

theorem decode_encode_witness:
  "encode [0x48, 0x69, 0xFF] = Inr ''SGn/'' \<and> decode ''SGn/'' = Inr [0x48, 0x69, 0xFF]"
proof -
  have e: "encode [0x48, 0x69, 0xFF] = Inr ''SGn/''"
    by code_simp
  with decode_encode [of "[0x48, 0x69, 0xFF]"] show ?thesis by auto
qed

section \<open>PCM conversion\<close>

lemma int16_pairs_bytes:
  "ucast (ucast w :: byte) OR push_bit 8 (ucast (ucast (drop_bit 8 w) :: byte)) = (w :: int16)"
  by (rule bit_word_eqI) (auto simp: bit_simps)

lemma int16_pairs_Uint8Array: "int16_pairs (Uint8Array_of a) = a"
  by (induction a) (simp_all add: Uint8Array_of_def int16_bytes_def int16_pairs_bytes)

lemma length_Uint8Array: "length (Uint8Array_of a) = 2 * length a"
  by (induction a) (simp_all add: Uint8Array_of_def int16_bytes_def)

lemma pcm_int16_map: "pcm_int16 xs = map (\<lambda>x. toInt16 (multiply_by x 32768)) xs"
  unfolding pcm_int16_def Let_def foldl_update_map
  by (rule map_index)

lemma trunc_err: "\<bar>real_of_int (trunc y) - y\<bar> < 1"
  unfolding trunc_def by (simp add: abs_if) linarith

lemma trunc_bounds:
  "- 32768 \<le> y \<Longrightarrow> y < 32768 \<Longrightarrow> - 32768 \<le> trunc y \<and> trunc y < 32768"
  unfolding trunc_def
  by (auto simp: le_floor_iff floor_less_iff ceiling_less_iff le_ceiling_iff)

lemma sint_toInt16:
  assumes "- 32768 \<le> y" "y < 32768"
  shows "sint (toInt16 (Num y)) = trunc y"
proof -
  have "- (2 ^ 15) \<le> trunc y \<and> trunc y < 2 ^ 15" using trunc_bounds [OF assms] by simp
  then have "signed_take_bit 15 (trunc y) = trunc y" by (simp add: signed_take_bit_int_eq_self)
  then show ?thesis by (simp add: toInt16_def signed_of_int)
qed

lemma sample_round_trip:
  assumes "- 1 \<le> x" "x < 1"
  shows "\<bar>real_of_int (sint (toInt16 (multiply_by (Num x) 32768))) / 32768 - x\<bar> < 1 / 32768"
proof -
  let ?y = "x * 32768"
  have r: "- 32768 \<le> ?y" "?y < 32768" using assms by simp_all
  have "\<bar>real_of_int (trunc ?y) - ?y\<bar> < 1" by (rule trunc_err)
  then have "\<bar>real_of_int (trunc ?y) / 32768 - x\<bar> < 1 / 32768"
    by (simp add: abs_if field_simps split: if_splits)
  then show ?thesis by (simp add: multiply_by_def sint_toInt16 [OF r])
qed

section \<open>De-interleaving\<close>

lemma foldl_update_over_aux:
  "foldl (\<lambda>xs i. xs[i := f i]) xs [0..<k] = map f [0..<min k (length xs)] @ drop k xs"
proof (induction k)
  case 0
  then show ?case by simp
next
  case (Suc k)
  show ?case
  proof (cases "k < length xs")
    case True
    then have d: "drop k xs = xs ! k # drop (Suc k) xs" by (simp add: Cons_nth_drop_Suc)
    from True have m: "min k (length xs) = k" "min (Suc k) (length xs) = Suc k" by simp_all
    show ?thesis using Suc True by (simp add: m d list_update_append)
  next
    case False
    then have m: "min k (length xs) = length xs" "min (Suc k) (length xs) = length xs"
      by simp_all
    show ?thesis using Suc False by (simp add: m list_update_beyond)
  qed
qed

lemma foldl_update_over:
  "length xs \<le> k \<Longrightarrow> foldl (\<lambda>xs i. xs[i := f i]) xs [0..<k] = map f [0..<length xs]"
  by (simp add: foldl_update_over_aux min_def)

lemma foldl_channels_aux:
  "k \<le> length (channelData b) \<Longrightarrow>
   foldl (\<lambda>buffer c. buffer\<lparr>channelData := (channelData buffer)[c := g c (channelData buffer ! c)]\<rparr>)
     b [0..<k]
   = b\<lparr>channelData := map (\<lambda>c. g c (channelData b ! c)) [0..<k] @ drop k (channelData b)\<rparr>"
proof (induction k)
  case 0
  then show ?case by simp
next
  case (Suc k)
  then have k: "k < length (channelData b)" by simp
  then have d: "drop k (channelData b) = channelData b ! k # drop (Suc k) (channelData b)"
    by (simp add: Cons_nth_drop_Suc)
  show ?case using Suc k by (simp add: d list_update_append nth_append)
qed

text \<open>
  What \<open>decodeAudioData\<close> returns whenever the buffer can be created: no condition on
  divisibility is involved.
\<close>

lemma decodeAudioData_channels:
  assumes even: "length data mod 2 = 0"
    and N: "0 < N" "N \<le> maxChannels ctx"
    and rate: "0 < rate" "minSampleRate ctx \<le> rate" "rate \<le> maxSampleRate ctx"
    and L: "N \<le> length (int16_pairs data)"
  shows "decodeAudioData data ctx rate N =
     Inr \<lparr>channelData =
            map (\<lambda>c. map (\<lambda>i. Num (real_of_int (sint (int16_pairs data ! (i * N + c))) / 32768))
                      [0..<length (int16_pairs data) div N]) [0..<N],
          frames = length (int16_pairs data) div N, sampleRate = rate\<rparr>"
proof -
  let ?d = "int16_pairs data"
  let ?L = "length ?d"
  let ?fc = "real ?L / real N"
  let ?n = "?L div N"
  have fl: "nat \<lfloor>?fc\<rfloor> = ?n" by (simp add: floor_divide_of_nat_eq)
  have pos: "0 < ?n" using N(1) L by (simp add: div_greater_zero_iff)
  let ?b0 = "\<lparr>channelData = replicate N (replicate ?n (Num 0)), frames = ?n, sampleRate = rate\<rparr>"
  have cb: "createBuffer ctx N ?fc rate = Inr ?b0"
    unfolding createBuffer_def fl using N rate pos by simp
  have ce: "?n \<le> nat \<lceil>?fc\<rceil>"
  proof -
    have "\<lfloor>?fc\<rfloor> \<le> \<lceil>?fc\<rceil>" by (rule floor_le_ceiling)
    then have "nat \<lfloor>?fc\<rfloor> \<le> nat \<lceil>?fc\<rceil>" by (rule nat_mono)
    then show ?thesis by (simp only: fl)
  qed
  let ?f = "\<lambda>c i. divide_by (readInt16 ?d (i * N + c)) 32768"
  let ?g = "\<lambda>c cd. foldl (\<lambda>channelData i. channelData[i := ?f c i]) cd [0..<nat \<lceil>?fc\<rceil>]"
  have inner: "?g c (replicate ?n (Num 0))
      = map (\<lambda>i. Num (real_of_int (sint (?d ! (i * N + c))) / 32768)) [0..<?n]"
    if c: "c < N" for c
  proof -
    have "?g c (replicate ?n (Num 0)) = map (?f c) [0..<?n]"
      using foldl_update_over [of "replicate ?n (Num 0)" "nat \<lceil>?fc\<rceil>" "?f c"] ce by simp
    also have "\<dots> = map (\<lambda>i. Num (real_of_int (sint (?d ! (i * N + c))) / 32768)) [0..<?n]"
    proof (rule map_cong [OF refl])
      fix i assume "i \<in> set [0..<?n]"
      then have "i < ?n" by simp
      then have "Suc i * N \<le> ?L" using N(1)
        by (metis Suc_leI less_eq_div_iff_mult_less_eq)
      with c have "i * N + c < ?L" by simp
      then show "?f c i = Num (real_of_int (sint (?d ! (i * N + c))) / 32768)"
        by (simp add: readInt16_def divide_by_def)
    qed
    finally show ?thesis .
  qed
  have outer:
    "foldl (\<lambda>buffer c. buffer\<lparr>channelData :=
        (channelData buffer)[c := ?g c (channelData buffer ! c)]\<rparr>) ?b0 [0..<N]
     = ?b0\<lparr>channelData := map (\<lambda>c. ?g c (channelData ?b0 ! c)) [0..<N]
         @ drop N (channelData ?b0)\<rparr>"
    by (rule foldl_channels_aux) simp
  have chans: "map (\<lambda>c. ?g c (channelData ?b0 ! c)) [0..<N]
     = map (\<lambda>c. map (\<lambda>i. Num (real_of_int (sint (?d ! (i * N + c))) / 32768)) [0..<?n]) [0..<N]"
    by (rule map_cong [OF refl]) (simp add: inner)
  have arr: "Int16Array_of data = Inr ?d" using even by (simp add: Int16Array_of_def)
  have "decodeAudioData data ctx rate N =
      Inr (foldl (\<lambda>buffer c. buffer\<lparr>channelData :=
        (channelData buffer)[c := ?g c (channelData buffer ! c)]\<rparr>) ?b0 [0..<N])"
    unfolding decodeAudioData_def arr Let_def by (simp only: sum.case cb)
  also have "\<dots> = Inr (?b0\<lparr>channelData :=
       map (\<lambda>c. map (\<lambda>i. Num (real_of_int (sint (?d ! (i * N + c))) / 32768)) [0..<?n]) [0..<N]
         @ drop N (channelData ?b0)\<rparr>)"
    by (simp only: outer chans)
  finally show ?thesis by simp
qed

lemma length_int16_pairs: "length (int16_pairs d) = length d div 2"
  by (induction d rule: int16_pairs.induct) simp_all

text \<open>
  C7, as the code has it.  \<open>decodeAudioData\<close> has no divisibility check and no format
  error.  For a byte sequence holding \<open>L\<close> 16-bit samples (an even number of bytes) and a
  channel count \<open>N\<close> with \<open>1 \<le> N \<le> L\<close> that the context supports at the given rate, it
  returns \<open>N\<close> channel buffers, each of exactly \<open>L div N\<close> elements (\<open>L / N\<close> when \<open>N\<close>
  divides \<open>L\<close>), element \<open>i\<close> of channel \<open>c\<close> being sample \<open>i * N + c\<close> divided by 32768.
\<close>

theorem decodeAudioData_deinterleave:
  assumes "length data mod 2 = 0"
    and "0 < N" and "N \<le> maxChannels ctx"
    and "0 < rate" and "minSampleRate ctx \<le> rate" and "rate \<le> maxSampleRate ctx"
    and "N \<le> length data div 2"
  shows "\<exists>buffer. decodeAudioData data ctx rate N = Inr buffer
     \<and> length (channelData buffer) = N
     \<and> (\<forall>c<N. length (channelData buffer ! c) = (length data div 2) div N
          \<and> (\<forall>i<(length data div 2) div N.
                channelData buffer ! c ! i =
                  Num (real_of_int (sint (int16_pairs data ! (i * N + c))) / 32768)))"
proof -
  from assms(7) have L: "N \<le> length (int16_pairs data)" by (simp add: length_int16_pairs)
  show ?thesis
    unfolding decodeAudioData_channels [OF assms(1-6) L]
    by (simp add: length_int16_pairs)
qed

theorem decodeAudioData_deinterleave_witness:
  "\<exists>buffer. decodeAudioData [1, 0, 2, 0, 3, 0, 4, 0] (audioContextAt 0) 24000 2 = Inr buffer
     \<and> length (channelData buffer) = 2
     \<and> (\<forall>c<2. length (channelData buffer ! c) = (length [1, 0, 2, 0, 3, 0, 4, 0 :: byte] div 2) div 2
          \<and> (\<forall>i<(length [1, 0, 2, 0, 3, 0, 4, 0 :: byte] div 2) div 2.
                channelData buffer ! c ! i =
                  Num (real_of_int (sint (int16_pairs [1, 0, 2, 0, 3, 0, 4, 0] ! (i * 2 + c))) / 32768)))"
  by (rule decodeAudioData_deinterleave) (simp_all add: audioContextAt_def)

text \<open>
  Three samples de-interleaved into two channels: no failure, one frame per channel, the
  third sample dropped.
\<close>

theorem decodeAudioData_indivisible_counterexample:
  "decodeAudioData [1, 0, 2, 0, 3, 0] (audioContextAt 0) 24000 2 =
     Inr \<lparr>channelData = [[Num (1 / 32768)], [Num (2 / 32768)]], frames = 1, sampleRate = 24000\<rparr>
   \<and> length (int16_pairs [1, 0, 2, 0, 3, 0]) mod 2 \<noteq> 0"
proof -
  have p: "int16_pairs [1, 0, 2, 0, 3, 0] = [1, 2, 3]" by simp
  have u: "[0..<2::nat] = [0, 1]" by code_simp
  show ?thesis
    using decodeAudioData_channels [of "[1, 0, 2, 0, 3, 0]" 2 "audioContextAt 0" 24000]
    unfolding p u
    by (simp add: audioContextAt_def)
qed

text \<open>
  C6, as the code has it.  For samples in \<open>[-1, 1)\<close> the conversion to 16-bit integers
  and back through a single channel reproduces every sample with an absolute error below
  \<open>1 / 32768\<close>.
\<close>

theorem pcm_round_trip:
  assumes range: "\<forall>x \<in> set xs. - 1 \<le> x \<and> x < 1"
    and i: "i < length xs"
    and ctx: "0 < maxChannels ctx" "0 < rate" "minSampleRate ctx \<le> rate" "rate \<le> maxSampleRate ctx"
  shows "\<exists>ys. decodeAudioData (Uint8Array_of (pcm_int16 (map Num xs))) ctx rate 1 =
            Inr \<lparr>channelData = [map Num ys], frames = length xs, sampleRate = rate\<rparr>
          \<and> length ys = length xs \<and> \<bar>ys ! i - xs ! i\<bar> < 1 / 32768"
proof -
  let ?a = "pcm_int16 (map Num xs)"
  let ?ys = "map (\<lambda>x. real_of_int (sint (toInt16 (multiply_by (Num x) 32768))) / 32768) xs"
  have a: "?a = map (\<lambda>x. toInt16 (multiply_by (Num x) 32768)) xs"
    by (simp add: pcm_int16_map o_def)
  have len: "length ?a = length xs" by (simp add: a)
  have e: "length (Uint8Array_of ?a) mod 2 = 0" by (simp add: length_Uint8Array)
  have n: "1 \<le> length (int16_pairs (Uint8Array_of ?a))"
    using i by (simp add: int16_pairs_Uint8Array len)
  have ch: "map (\<lambda>i. Num (real_of_int (sint (?a ! i)) / 32768)) [0..<length xs] = map Num ?ys"
    by (rule nth_equalityI) (simp_all add: a)
  have "decodeAudioData (Uint8Array_of ?a) ctx rate 1 =
      Inr \<lparr>channelData = [map (\<lambda>i. Num (real_of_int (sint (?a ! i)) / 32768)) [0..<length xs]],
            frames = length xs, sampleRate = rate\<rparr>"
    using decodeAudioData_channels [of "Uint8Array_of ?a" 1 ctx rate] e n ctx
    by (simp add: int16_pairs_Uint8Array len)
  then have "decodeAudioData (Uint8Array_of ?a) ctx rate 1 =
      Inr \<lparr>channelData = [map Num ?ys], frames = length xs, sampleRate = rate\<rparr>"
    by (simp only: ch)
  moreover have "\<bar>?ys ! i - xs ! i\<bar> < 1 / 32768"
    using i range sample_round_trip [of "xs ! i"] by simp
  ultimately show ?thesis by (intro exI [of _ ?ys]) simp
qed

theorem pcm_round_trip_witness:
  "\<exists>ys. decodeAudioData (Uint8Array_of (pcm_int16 (map Num [1 / 3, - 1]))) (audioContextAt 0) 24000 1 =
            Inr \<lparr>channelData = [map Num ys], frames = length [1 / 3, - 1 :: real], sampleRate = 24000\<rparr>
          \<and> length ys = length [1 / 3, - 1 :: real] \<and> \<bar>ys ! 0 - [1 / 3, - 1] ! 0\<bar> < 1 / 32768"
  using pcm_round_trip [of "[1 / 3, - 1]" 0 "audioContextAt 0" 24000]
  by (simp add: audioContextAt_def)

text \<open>
  The sample \<open>1\<close> scales to 32768, which wraps to \<open>-32768\<close> in 16 bits and comes back as
  \<open>-1\<close>: an error of 2.
\<close>

theorem pcm_full_scale_counterexample:
  "decodeAudioData (Uint8Array_of (pcm_int16 [Num 1])) (audioContextAt 0) 24000 1 =
     Inr \<lparr>channelData = [[Num (- 1)]], frames = 1, sampleRate = 24000\<rparr>
   \<and> \<not> \<bar>(- 1) - (1::real)\<bar> \<le> 1 / 32768"
proof -
  have p: "pcm_int16 [Num 1] = [32768]"
    by (simp add: pcm_int16_map multiply_by_def toInt16_def trunc_def)
  have s: "sint (32768 :: int16) = - 32768" by simp
  show ?thesis
    using decodeAudioData_channels [of "Uint8Array_of (pcm_int16 [Num 1])" 1 "audioContextAt 0" 24000]
    by (simp add: p length_Uint8Array int16_pairs_Uint8Array audioContextAt_def s)
qed


section \<open>The branches of the message handler\<close>

lemma audioBranch_texts:
  assumes "audioBranch env m st = Returned st'"
  shows "transcriptions st' = transcriptions st
    \<and> currentInputTextRef st' = currentInputTextRef st
    \<and> currentOutputTextRef st' = currentOutputTextRef st
    \<and> currentInputText st' = currentInputText st
    \<and> currentOutputText st' = currentOutputText st"
  using assms
  by (auto simp: audioBranch_def Let_def split: option.splits if_splits sum.splits)

lemma audioBranch_absent:
  "base64Audio m = None \<or> base64Audio m = Some [] \<Longrightarrow> audioBranch env m st = Returned st"
  by (auto simp: audioBranch_def)

lemma audioBranch_sources:
  assumes "audioBranch env m st = Returned st'"
  shows "(\<exists>new. sourcesRef st' = sourcesRef st @ new) \<and> stopped st' = stopped st"
  using assms
  by (auto simp: audioBranch_def Let_def set_add_def split: option.splits if_splits sum.splits)

lemma transcriptionBranch_rest:
  "transcriptions (transcriptionBranch m st) = transcriptions st
   \<and> sourcesRef (transcriptionBranch m st) = sourcesRef st
   \<and> stopped (transcriptionBranch m st) = stopped st"
  by (simp add: transcriptionBranch_def split: option.splits)

lemma turnCompleteBranch_rest:
  "sourcesRef (turnCompleteBranch env m st) = sourcesRef st
   \<and> stopped (turnCompleteBranch env m st) = stopped st"
  by (simp add: turnCompleteBranch_def Let_def)

lemma turnCompleteBranch_flush:
  assumes "turnCompleteSignal m"
  shows "transcriptions (turnCompleteBranch env m st) =
       transcriptions st
       @ (if currentInputTextRef st \<noteq> [] then
             [\<lparr>role = User, entryText = currentInputTextRef st,
              timestamp = dateNowUser env,
              avatar = Some [CHR 0xF0, CHR 0x9F, CHR 0x91, CHR 0xA4],
              senderName = Some ''Candidate''\<rparr>] else [])
       @ (if currentOutputTextRef st \<noteq> [] then
             [\<lparr>role = Examiner, entryText = currentOutputTextRef st,
              timestamp = dateNowExaminer env,
              avatar = Some (icon (selectedPersona env)),
              senderName = Some (personaLabel (selectedPersona env))\<rparr>] else [])"
    and "currentInputTextRef (turnCompleteBranch env m st) = []"
    and "currentOutputTextRef (turnCompleteBranch env m st) = []"
    and "currentInputText (turnCompleteBranch env m st) = []"
    and "currentOutputText (turnCompleteBranch env m st) = []"
  using assms by (simp_all add: turnCompleteBranch_def Let_def)

lemma interruptedBranch_texts:
  "transcriptions (interruptedBranch m st) = transcriptions st
    \<and> currentInputTextRef (interruptedBranch m st) = currentInputTextRef st
    \<and> currentOutputTextRef (interruptedBranch m st) = currentOutputTextRef st
    \<and> currentInputText (interruptedBranch m st) = currentInputText st
    \<and> currentOutputText (interruptedBranch m st) = currentOutputText st"
  by (simp add: interruptedBranch_def Let_def)

lemma onmessage_no_audio:
  "base64Audio m = None \<Longrightarrow>
   onmessage env m st =
     Returned (interruptedBranch m (turnCompleteBranch env m (transcriptionBranch m st)))"
  by (simp add: onmessage_def audioBranch_absent)

lemma sample_messages_no_audio:
  "base64Audio (inputFragment t) = None"
  "base64Audio (outputFragment t) = None"
  "base64Audio (bothFragments out inp) = None"
  "base64Audio turnCompleteMessage = None"
  "base64Audio interruptedMessage = None"
  by (simp_all add: base64Audio_def inputFragment_def outputFragment_def bothFragments_def
      turnCompleteMessage_def interruptedMessage_def noContent_def)

lemma onmessage_inputFragment:
  "onmessage env (inputFragment t) st =
     Returned (st\<lparr>currentInputTextRef := currentInputTextRef st @ t,
                  currentInputText := currentInputText st @ t\<rparr>)"
  by (simp add: onmessage_no_audio sample_messages_no_audio)
     (simp add: inputFragment_def noContent_def transcriptionBranch_def turnCompleteBranch_def
        interruptedBranch_def turnCompleteSignal_def interruptedSignal_def)

lemma onmessage_outputFragment:
  "onmessage env (outputFragment t) st =
     Returned (st\<lparr>currentOutputTextRef := currentOutputTextRef st @ t,
                  currentOutputText := currentOutputText st @ t\<rparr>)"
  by (simp add: onmessage_no_audio sample_messages_no_audio)
     (simp add: outputFragment_def noContent_def transcriptionBranch_def turnCompleteBranch_def
        interruptedBranch_def turnCompleteSignal_def interruptedSignal_def)

lemma onmessage_turnCompleteMessage:
  "onmessage env turnCompleteMessage st = Returned (turnCompleteBranch env turnCompleteMessage st)"
  by (simp add: onmessage_no_audio sample_messages_no_audio)
     (simp add: turnCompleteMessage_def noContent_def transcriptionBranch_def
        interruptedBranch_def interruptedSignal_def)

lemma turnCompleteSignal_sample: "turnCompleteSignal turnCompleteMessage"
  by (simp add: turnCompleteSignal_def turnCompleteMessage_def)

lemma onmessages_outputFragments:
  "onmessages (map (\<lambda>(e, t). (e, outputFragment t)) outs @ rest) st =
   onmessages rest
     (st\<lparr>currentOutputTextRef := currentOutputTextRef st @ concat (map snd outs),
         currentOutputText := currentOutputText st @ concat (map snd outs)\<rparr>)"
proof (induction outs arbitrary: st)
  case Nil
  then show ?case by simp
next
  case (Cons p outs)
  obtain e t where p: "p = (e, t)" by (cases p)
  show ?case by (simp add: p onmessage_outputFragment Cons.IH)
qed

text \<open>
  C2.  When a turn-complete signal arrives, the non-empty accumulators are flushed into
  the transcript, the candidate's entry (role \<open>User\<close>, the accumulated input text) before
  the examiner's (role \<open>Examiner\<close>, the accumulated output text), and both accumulators
  are reset.  Input fragments A, B and an output fragment C followed by turn-complete yield
  exactly two entries, the candidate's with text AB and then the examiner's with text C;
  output fragments alone (with some text in them) yield exactly one entry, the
  examiner's.
\<close>

theorem turn_complete_flush:
  "(turnCompleteSignal m \<longrightarrow>
      transcriptions (turnCompleteBranch env m st) =
        transcriptions st
        @ (if currentInputTextRef st \<noteq> [] then
             [\<lparr>role = User, entryText = currentInputTextRef st,
              timestamp = dateNowUser env,
              avatar = Some [CHR 0xF0, CHR 0x9F, CHR 0x91, CHR 0xA4],
              senderName = Some ''Candidate''\<rparr>] else [])
        @ (if currentOutputTextRef st \<noteq> [] then
             [\<lparr>role = Examiner, entryText = currentOutputTextRef st,
              timestamp = dateNowExaminer env,
              avatar = Some (icon (selectedPersona env)),
              senderName = Some (personaLabel (selectedPersona env))\<rparr>] else [])
      \<and> currentInputTextRef (turnCompleteBranch env m st) = []
      \<and> currentOutputTextRef (turnCompleteBranch env m st) = []
      \<and> currentInputText (turnCompleteBranch env m st) = []
      \<and> currentOutputText (turnCompleteBranch env m st) = [])
   \<and> (turnCompleteSignal m \<and> onmessage env m st = Returned st' \<longrightarrow>
        transcriptions st' =
          transcriptions st
          @ (if currentInputTextRef (transcriptionBranch m st) \<noteq> []
             then
             [\<lparr>role = User, entryText = currentInputTextRef (transcriptionBranch m st),
              timestamp = dateNowUser env,
              avatar = Some [CHR 0xF0, CHR 0x9F, CHR 0x91, CHR 0xA4],
              senderName = Some ''Candidate''\<rparr>] else [])
          @ (if currentOutputTextRef (transcriptionBranch m st) \<noteq> []
             then
             [\<lparr>role = Examiner, entryText = currentOutputTextRef (transcriptionBranch m st),
              timestamp = dateNowExaminer env,
              avatar = Some (icon (selectedPersona env)),
              senderName = Some (personaLabel (selectedPersona env))\<rparr>] else [])
        \<and> currentInputTextRef st' = [] \<and> currentOutputTextRef st' = []
        \<and> currentInputText st' = [] \<and> currentOutputText st' = [])
   \<and> transcriptions
        (onmessages [(e1, inputFragment ''A''), (e2, inputFragment ''B''),
                     (e3, outputFragment ''C''), (e4, turnCompleteMessage)] initial_state)
      =
             [\<lparr>role = User, entryText = ''AB'', timestamp = dateNowUser e4,
              avatar = Some [CHR 0xF0, CHR 0x9F, CHR 0x91, CHR 0xA4],
              senderName = Some ''Candidate''\<rparr>,
         \<lparr>role = Examiner, entryText = ''C'', timestamp = dateNowExaminer e4,
              avatar = Some (icon (selectedPersona e4)),
              senderName = Some (personaLabel (selectedPersona e4))\<rparr>]
   \<and> (concat (map snd outs) \<noteq> [] \<longrightarrow>
        transcriptions
          (onmessages (map (\<lambda>(e, t). (e, outputFragment t)) outs @ [(e5, turnCompleteMessage)])
             initial_state)
        =
             [\<lparr>role = Examiner, entryText = concat (map snd outs),
              timestamp = dateNowExaminer e5,
              avatar = Some (icon (selectedPersona e5)),
              senderName = Some (personaLabel (selectedPersona e5))\<rparr>])"
proof -
  have handler: "transcriptions st' =
          transcriptions st
          @ (if currentInputTextRef (transcriptionBranch m st) \<noteq> []
             then
             [\<lparr>role = User, entryText = currentInputTextRef (transcriptionBranch m st),
              timestamp = dateNowUser env,
              avatar = Some [CHR 0xF0, CHR 0x9F, CHR 0x91, CHR 0xA4],
              senderName = Some ''Candidate''\<rparr>] else [])
          @ (if currentOutputTextRef (transcriptionBranch m st) \<noteq> []
             then
             [\<lparr>role = Examiner, entryText = currentOutputTextRef (transcriptionBranch m st),
              timestamp = dateNowExaminer env,
              avatar = Some (icon (selectedPersona env)),
              senderName = Some (personaLabel (selectedPersona env))\<rparr>] else [])
        \<and> currentInputTextRef st' = [] \<and> currentOutputTextRef st' = []
        \<and> currentInputText st' = [] \<and> currentOutputText st' = []"
    if tc: "turnCompleteSignal m" and r: "onmessage env m st = Returned st'"
  proof -
    from r obtain s1 where a: "audioBranch env m st = Returned s1"
      and st': "st' = interruptedBranch m (turnCompleteBranch env m (transcriptionBranch m s1))"
      by (auto simp: onmessage_def split: outcome.splits)
    have same:
      "currentInputTextRef (transcriptionBranch m s1) = currentInputTextRef (transcriptionBranch m st)"
      "currentOutputTextRef (transcriptionBranch m s1) = currentOutputTextRef (transcriptionBranch m st)"
      "transcriptions (transcriptionBranch m s1) = transcriptions st"
      using audioBranch_texts [OF a]
      by (simp_all add: transcriptionBranch_def split: option.splits)
    show ?thesis
      unfolding st' by (simp add: interruptedBranch_texts turnCompleteBranch_flush [OF tc] same)
  qed
  have abc: "transcriptions
        (onmessages [(e1, inputFragment ''A''), (e2, inputFragment ''B''),
                     (e3, outputFragment ''C''), (e4, turnCompleteMessage)] initial_state)
      =
             [\<lparr>role = User, entryText = ''AB'', timestamp = dateNowUser e4,
              avatar = Some [CHR 0xF0, CHR 0x9F, CHR 0x91, CHR 0xA4],
              senderName = Some ''Candidate''\<rparr>,
         \<lparr>role = Examiner, entryText = ''C'', timestamp = dateNowExaminer e4,
              avatar = Some (icon (selectedPersona e4)),
              senderName = Some (personaLabel (selectedPersona e4))\<rparr>]"
    by (simp add: onmessage_inputFragment onmessage_outputFragment onmessage_turnCompleteMessage
        turnCompleteBranch_flush [OF turnCompleteSignal_sample] initial_state_def)
  have silent: "transcriptions
      (onmessages (map (\<lambda>(e, t). (e, outputFragment t)) outs @ [(e5, turnCompleteMessage)])
         initial_state)
      =
             [\<lparr>role = Examiner, entryText = concat (map snd outs),
              timestamp = dateNowExaminer e5,
              avatar = Some (icon (selectedPersona e5)),
              senderName = Some (personaLabel (selectedPersona e5))\<rparr>]" if "concat (map snd outs) \<noteq> []"
    using that
    by (simp add: onmessages_outputFragments onmessage_turnCompleteMessage
        turnCompleteBranch_flush [OF turnCompleteSignal_sample] initial_state_def)
  show ?thesis
    using handler abc silent by (simp add: turnCompleteBranch_flush)
qed

theorem turn_complete_flush_witness:
  "turnCompleteSignal turnCompleteMessage
   \<and> transcriptions (turnCompleteBranch (envAt 0 7) turnCompleteMessage
        (initial_state\<lparr>currentInputTextRef := ''Hi'', currentOutputTextRef := ''Hello''\<rparr>))
      =
             [\<lparr>role = User, entryText = ''Hi'', timestamp = 7,
           avatar = Some [CHR 0xF0, CHR 0x9F, CHR 0x91, CHR 0xA4],
           senderName = Some ''Candidate''\<rparr>,
         \<lparr>role = Examiner, entryText = ''Hello'', timestamp = 7,
           avatar = Some (icon profSterling), senderName = Some ''Prof. Sterling''\<rparr>]
   \<and> concat (map snd [(envAt 0 1, ''Hel''), (envAt 0 2, ''lo'')]) \<noteq> []
   \<and> transcriptions
        (onmessages [(envAt 0 1, outputFragment ''Hel''), (envAt 0 2, outputFragment ''lo''),
                     (envAt 0 3, turnCompleteMessage)] initial_state)
      =
             [\<lparr>role = Examiner, entryText = ''Hello'', timestamp = 3,
           avatar = Some (icon profSterling), senderName = Some ''Prof. Sterling''\<rparr>]"
  using turn_complete_flush [where m = turnCompleteMessage and env = "envAt 0 7"
      and st = "initial_state\<lparr>currentInputTextRef := ''Hi'', currentOutputTextRef := ''Hello''\<rparr>"
      and outs = "[(envAt 0 1, ''Hel''), (envAt 0 2, ''lo'')]" and ?e5.0 = "envAt 0 3"]
  by (simp add: turnCompleteSignal_sample)
     (simp add: initial_state_def envAt_def profSterling_def)

section \<open>Interruption\<close>

lemma interruptedBranch_clears:
  assumes "interruptedSignal m"
  shows "sourcesRef (interruptedBranch m st) = []"
    and "nextStartTimeRef (interruptedBranch m st) = 0"
    and "\<not> isExaminerSpeaking (interruptedBranch m st)"
    and "stopped (interruptedBranch m st) = stopped st @ sourcesRef st"
  using assms by (simp_all add: interruptedBranch_def Let_def)

text \<open>
  C4.  After the handler of an interrupted signal has run, every active token has been
  stopped, the set of active tokens is empty, \<open>nextStartTime\<close> is 0 and the
  examiner-speaking flag is cleared, whatever the number of active tokens; this holds for
  the branch alone and for a whole run of the handler that returns.
\<close>

theorem interrupted_clears_scheduler:
  "(interruptedSignal m \<longrightarrow>
      sourcesRef (interruptedBranch m st) = []
      \<and> nextStartTimeRef (interruptedBranch m st) = 0
      \<and> \<not> isExaminerSpeaking (interruptedBranch m st)
      \<and> stopped (interruptedBranch m st) = stopped st @ sourcesRef st)
   \<and> (interruptedSignal m \<and> onmessage env m st = Returned st' \<longrightarrow>
        sourcesRef st' = [] \<and> nextStartTimeRef st' = 0 \<and> \<not> isExaminerSpeaking st'
        \<and> (\<exists>new. stopped st' = stopped st @ sourcesRef st @ new))"
proof -
  have "sourcesRef st' = [] \<and> nextStartTimeRef st' = 0 \<and> \<not> isExaminerSpeaking st'
        \<and> (\<exists>new. stopped st' = stopped st @ sourcesRef st @ new)"
    if i: "interruptedSignal m" and r: "onmessage env m st = Returned st'"
  proof -
    from r obtain s1 where a: "audioBranch env m st = Returned s1"
      and st': "st' = interruptedBranch m (turnCompleteBranch env m (transcriptionBranch m s1))"
      by (auto simp: onmessage_def split: outcome.splits)
    have "\<exists>new. sourcesRef s1 = sourcesRef st @ new \<and> stopped s1 = stopped st"
      using audioBranch_sources [OF a] by simp
    then show ?thesis
      unfolding st'
      by (auto simp: interruptedBranch_clears [OF i] turnCompleteBranch_rest
          transcriptionBranch_rest)
  qed
  then show ?thesis by (simp add: interruptedBranch_clears)
qed

theorem interrupted_clears_scheduler_witness:
  "interruptedSignal interruptedMessage
   \<and> onmessage (envAt 5 0) interruptedMessage
        (initial_state\<lparr>sourcesRef := [3, 4], nextStartTimeRef := 9, isExaminerSpeaking := True\<rparr>)
      = Returned (initial_state\<lparr>sourcesRef := [], nextStartTimeRef := 0,
                    isExaminerSpeaking := False, stopped := [3, 4]\<rparr>)
   \<and> (\<exists>new. [3, 4 :: nat] = [] @ [3, 4] @ new)"
proof -
  have i: "interruptedSignal interruptedMessage"
    by (simp add: interruptedSignal_def interruptedMessage_def)
  have r: "onmessage (envAt 5 0) interruptedMessage
        (initial_state\<lparr>sourcesRef := [3, 4], nextStartTimeRef := 9, isExaminerSpeaking := True\<rparr>)
      = Returned (initial_state\<lparr>sourcesRef := [], nextStartTimeRef := 0,
                    isExaminerSpeaking := False, stopped := [3, 4]\<rparr>)"
    by (simp add: onmessage_no_audio sample_messages_no_audio interruptedBranch_def i Let_def)
       (simp add: interruptedMessage_def noContent_def transcriptionBranch_def
          turnCompleteBranch_def turnCompleteSignal_def initial_state_def)
  from interrupted_clears_scheduler [where m = interruptedMessage and env = "envAt 5 0"
      and st = "initial_state\<lparr>sourcesRef := [3, 4], nextStartTimeRef := 9,
                  isExaminerSpeaking := True\<rparr>"
      and st' = "initial_state\<lparr>sourcesRef := [], nextStartTimeRef := 0,
                    isExaminerSpeaking := False, stopped := [3, 4]\<rparr>"] i r
  show ?thesis by (simp add: initial_state_def)
qed

section \<open>Transcript fragments\<close>

text \<open>
  C10.  A message that carries both an output and an input transcription appends only the
  output text to the examiner's accumulator; the candidate's accumulator stays as it was,
  the input text is dropped.  This holds for the branch and for a whole run of the handler
  that returns, when the message completes no turn.
\<close>

theorem both_fragments_output_only:
  assumes "serverContent m = Some sc"
    and "outputTranscription sc = Some out"
    and "inputTranscription sc = Some inp"
  shows "currentOutputTextRef (transcriptionBranch m st) = currentOutputTextRef st @ out
    \<and> currentOutputText (transcriptionBranch m st) = currentOutputText st @ out
    \<and> currentInputTextRef (transcriptionBranch m st) = currentInputTextRef st
    \<and> currentInputText (transcriptionBranch m st) = currentInputText st
    \<and> (\<not> turnComplete sc \<and> onmessage env m st = Returned st' \<longrightarrow>
         currentOutputTextRef st' = currentOutputTextRef st @ out
         \<and> currentInputTextRef st' = currentInputTextRef st)"
proof -
  have branch: "transcriptionBranch m s =
      s\<lparr>currentOutputTextRef := currentOutputTextRef s @ out,
        currentOutputText := currentOutputText s @ out\<rparr>" for s
    using assms by (simp add: transcriptionBranch_def)
  have "currentOutputTextRef st' = currentOutputTextRef st @ out
         \<and> currentInputTextRef st' = currentInputTextRef st"
    if "\<not> turnComplete sc" and r: "onmessage env m st = Returned st'"
  proof -
    from r obtain s1 where a: "audioBranch env m st = Returned s1"
      and st': "st' = interruptedBranch m (turnCompleteBranch env m (transcriptionBranch m s1))"
      by (auto simp: onmessage_def split: outcome.splits)
    have "turnCompleteBranch env m s = s" for s
      using that(1) assms(1) by (simp add: turnCompleteBranch_def turnCompleteSignal_def)
    then show ?thesis
      unfolding st' using audioBranch_texts [OF a]
      by (simp add: interruptedBranch_texts branch)
  qed
  then show ?thesis by (simp add: branch)
qed

theorem both_fragments_output_only_witness:
  "onmessage (envAt 0 0) (bothFragments ''yes'' ''no'') initial_state =
     Returned (initial_state\<lparr>currentOutputTextRef := ''yes'', currentOutputText := ''yes''\<rparr>)
   \<and> currentOutputTextRef (transcriptionBranch (bothFragments ''yes'' ''no'') initial_state) = ''yes''
   \<and> currentInputTextRef (transcriptionBranch (bothFragments ''yes'' ''no'') initial_state) = []"
proof -
  have r: "onmessage (envAt 0 0) (bothFragments ''yes'' ''no'') initial_state =
     Returned (initial_state\<lparr>currentOutputTextRef := ''yes'', currentOutputText := ''yes''\<rparr>)"
    by (simp add: onmessage_no_audio sample_messages_no_audio)
       (simp add: bothFragments_def noContent_def transcriptionBranch_def turnCompleteBranch_def
          interruptedBranch_def turnCompleteSignal_def interruptedSignal_def initial_state_def)
  from both_fragments_output_only [of "bothFragments ''yes'' ''no''"
      "noContent\<lparr>outputTranscription := Some ''yes'', inputTranscription := Some ''no''\<rparr>"
      "''yes''" "''no''" initial_state]
  have "currentOutputTextRef (transcriptionBranch (bothFragments ''yes'' ''no'') initial_state)
          = currentOutputTextRef initial_state @ ''yes''
      \<and> currentInputTextRef (transcriptionBranch (bothFragments ''yes'' ''no'') initial_state)
          = currentInputTextRef initial_state"
    by (simp add: bothFragments_def noContent_def)
  with r show ?thesis by (simp add: initial_state_def)
qed

section \<open>The closing guard\<close>

lemma producer_step_closing:
  assumes "isClosingRef st"
  shows "sent (producer_step st ev) = sent st \<and> isClosingRef (producer_step st ev)"
  using assms
  by (cases ev)
     (auto simp: producer_step_def onaudioprocess_def frameInterval_def runPendingSend_def
        Let_def split: list.splits)

lemma producer_steps_closing:
  "isClosingRef st \<Longrightarrow>
   sent (foldl producer_step st evs) = sent st \<and> isClosingRef (foldl producer_step st evs)"
proof (induction evs arbitrary: st)
  case Nil
  then show ?case by simp
next
  case (Cons ev evs)
  from producer_step_closing [OF Cons.prems, of ev]
  have s: "sent (producer_step st ev) = sent st" and c: "isClosingRef (producer_step st ev)"
    by simp_all
  from Cons.IH [OF c] s show ?case by simp
qed

text \<open>
  C3.  Once the closing flag is set, the audio callback drops its block and the frame
  tick its frame without registering a send, a continuation registered earlier sends
  nothing when it runs, and after any sequence of such events the messages sent are those
  sent before.
\<close>

theorem closing_guard:
  assumes "isClosingRef st"
  shows "onaudioprocess inputData st = Returned st
    \<and> frameInterval page st = st
    \<and> sent (runPendingSend s st) = sent st
    \<and> sent (foldl producer_step st evs) = sent st"
  using assms producer_steps_closing [OF assms, of evs]
  by (simp add: onaudioprocess_def frameInterval_def runPendingSend_def Let_def
      split: list.splits)

theorem closing_guard_witness:
  "isClosingRef (initial_state\<lparr>isClosingRef := True, sessionRef := Some 1,
       pendingSends := [\<lparr>mediaData = Some ''AAA='', mimeType = ''audio/pcm;rate=16000''\<rparr>]\<rparr>)
   \<and> sent (foldl producer_step
        (initial_state\<lparr>isClosingRef := True, sessionRef := Some 1,
           pendingSends := [\<lparr>mediaData = Some ''AAA='', mimeType = ''audio/pcm;rate=16000''\<rparr>]\<rparr>)
        [SendContinuation (Some 1), AudioProcess [Num 0],
         FrameTick \<lparr>videoRef = True, canvasRef = True, context2d = True,
                    dataUrl = ''data:image/jpeg;base64,AAAA''\<rparr>,
         SendContinuation (Some 1)]) = []"
  using closing_guard [where st = "initial_state\<lparr>isClosingRef := True, sessionRef := Some 1,
       pendingSends := [\<lparr>mediaData = Some ''AAA='', mimeType = ''audio/pcm;rate=16000''\<rparr>]\<rparr>"
      and evs = "[SendContinuation (Some 1), AudioProcess [Num 0],
         FrameTick \<lparr>videoRef = True, canvasRef = True, context2d = True,
                    dataUrl = ''data:image/jpeg;base64,AAAA''\<rparr>,
         SendContinuation (Some 1)]"]
  by (simp add: initial_state_def)

text \<open>
  While the flag is clear and a session is there, the audio callback registers the encoded
  block and the frame tick registers the part of the data URL after the comma.
\<close>

lemma onaudioprocess_open:
  assumes "\<not> isClosingRef st" and "sessionRef st = Some s"
  shows "\<exists>t. encode (Uint8Array_of (pcm_int16 inputData)) = Inr t
    \<and> onaudioprocess inputData st =
        Returned (st\<lparr>pendingSends := pendingSends st @
          [\<lparr>mediaData = Some t, mimeType = ''audio/pcm;rate=16000''\<rparr>]\<rparr>)"
  using assms by (simp add: onaudioprocess_def pcmBlob_def encode_eq)

lemma frameInterval_open:
  assumes "\<not> isClosingRef st" and "sessionRef st = Some s"
  shows "frameInterval \<lparr>videoRef = True, canvasRef = True, context2d = True,
            dataUrl = ''data:image/jpeg;base64,AAAA''\<rparr> st =
     st\<lparr>isAnalyzing := True,
        timeouts := timeouts st @ [(200, ClearAnalyzing)],
        pendingSends := pendingSends st @
          [\<lparr>mediaData = Some ''AAAA'', mimeType = ''image/jpeg''\<rparr>]\<rparr>"
  using assms by (simp add: frameInterval_def second_def Let_def)

text \<open>While the flag is clear, a continuation that runs with a session does send.\<close>

lemma runPendingSend_open:
  "\<not> isClosingRef st \<Longrightarrow> pendingSends st = m # ms \<Longrightarrow>
   sent (runPendingSend (Some s) st) = sent st @ [m]"
  by (simp add: runPendingSend_def)

section \<open>Gapless scheduling\<close>

lemma audioBranch_schedules:
  assumes "base64Audio m = Some b" and "b \<noteq> []"
    and "decodeAudio (outputContext env) b = Inr a"
  shows "audioBranch env m st =
     Returned (st\<lparr>isExaminerSpeaking := True,
        nextStartTimeRef :=
          max (nextStartTimeRef st) (currentTime (outputContext env)) + duration a,
        sourceCount := Suc (sourceCount st),
        started := started st @
          [(sourceCount st, max (nextStartTimeRef st) (currentTime (outputContext env)))],
        sourcesRef := set_add (sourceCount st) (sourcesRef st)\<rparr>)"
  using assms by (simp add: audioBranch_def Let_def)







text \<open>
  A run of the handler on a message that carries nothing but audio.
\<close>

lemma onmessage_audioMessage:
  assumes "b \<noteq> []" and "decodeAudio (outputContext env) b = Inr a"
  shows "onmessage env (audioMessage b) st =
     Returned (st\<lparr>isExaminerSpeaking := True,
        nextStartTimeRef :=
          max (nextStartTimeRef st) (currentTime (outputContext env)) + duration a,
        sourceCount := Suc (sourceCount st),
        started := started st @
          [(sourceCount st, max (nextStartTimeRef st) (currentTime (outputContext env)))],
        sourcesRef := set_add (sourceCount st) (sourcesRef st)\<rparr>)"
proof -
  have audio: "base64Audio (audioMessage b) = Some b"
    by (simp add: base64Audio_def audioMessage_def noContent_def)
  have rest: "interruptedBranch (audioMessage b)
      (turnCompleteBranch env (audioMessage b) (transcriptionBranch (audioMessage b) s)) = s" for s
    by (simp add: interruptedBranch_def turnCompleteBranch_def transcriptionBranch_def
        interruptedSignal_def turnCompleteSignal_def audioMessage_def noContent_def)
  show ?thesis
    unfolding onmessage_def audioBranch_schedules [OF audio assms]
    by (simp only: outcome.case rest)
qed

text \<open>
  The token of a buffer joins the active set when it is scheduled and leaves it when its
  playback ends; when the last one ends the examiner has stopped speaking.
\<close>

lemma audio_registers_source:
  assumes "sourceCount st \<notin> set (sourcesRef st)"
    and "b \<noteq> []" and "decodeAudio (outputContext env) b = Inr a"
  shows "\<exists>st'. onmessage env (audioMessage b) st = Returned st'
    \<and> sourcesRef st' = sourcesRef st @ [sourceCount st] \<and> isExaminerSpeaking st'"
  using assms(1) by (simp add: onmessage_audioMessage [OF assms(2,3)] set_add_def)

lemma onended_last:
  "sourcesRef st = [x] \<Longrightarrow> onended x st = st\<lparr>sourcesRef := [], isExaminerSpeaking := False\<rparr>"
  by (simp add: onended_def set_delete_def Let_def)

lemma onended_other:
  "sourcesRef st = [x, y] \<Longrightarrow> x \<noteq> y \<Longrightarrow> onended x st = st\<lparr>sourcesRef := [y]\<rparr>"
  by (simp add: onended_def set_delete_def Let_def)

text \<open>Neither the teardown nor a new start of the session resets \<open>nextStartTime\<close>.\<close>

lemma restart_keeps_nextStartTime:
  "nextStartTimeRef (mount io (teardown st)) = nextStartTimeRef st"
  by (simp add: mount_def teardown_def startSession_def startSession_catch_def
      stopActiveSession_def Let_def split: option.splits)


section \<open>Recovery from a channel error\<close>

lemma onerror_registers_retry:
  "errorMessage (onerror st) = Some ''System error. Restarting...''
   \<and> timeouts (onerror st) = timeouts st @ [(1500, StartSession)]"
  by (simp add: onerror_def Let_def)

lemma teardown_keeps_timeouts: "timeouts (teardown st) = timeouts st"
  by (simp add: teardown_def stopActiveSession_def Let_def split: option.splits)

lemma teardown_closing: "isClosingRef (teardown st)"
  by (simp add: teardown_def stopActiveSession_def Let_def split: option.splits)

lemma startSession_connects:
  assumes "resumeOk io" and "getUserMedia io = Some g" and "connectResult io = Some s"
  shows "connects (startSession io st) = Suc (connects st)
    \<and> sessionRef (startSession io st) = Some s
    \<and> isClosingRef (startSession io st) = isClosingRef st
    \<and> errorMessage (startSession io st) = None"
  using assms
  by (simp add: startSession_def stopActiveSession_def Let_def split: option.splits)

text \<open>
  While the room stays mounted, a channel error shows the transient message and leaves one
  timeout of 1500 ms whose firing calls \<open>startSession\<close>, which connects again.
\<close>

lemma onerror_retries:
  assumes "timeouts st = []" and "resumeOk io" and "getUserMedia io = Some g"
    and "connectResult io = Some s"
  shows "errorMessage (onerror st) = Some ''System error. Restarting...''
    \<and> timeouts (onerror st) = [(1500, StartSession)]
    \<and> connects (fireTimeout io 0 (onerror st)) = Suc (connects st)
    \<and> sessionRef (fireTimeout io 0 (onerror st)) = Some s"
proof -
  have t: "timeouts (onerror st) = [(1500, StartSession)]"
    using assms(1) by (simp add: onerror_registers_retry)
  have c: "connects (onerror st) = connects st" by (simp add: onerror_def Let_def)
  show ?thesis
    using startSession_connects [OF assms(2-4)] t c
    by (simp add: fireTimeout_def onerror_registers_retry)
qed

text \<open>
  The teardown leaves the timeout in place, and its firing connects whatever the closing
  flag says.
\<close>

lemma retry_survives_teardown:
  assumes "timeouts st = []" and "resumeOk io" and "getUserMedia io = Some g"
    and "connectResult io = Some s"
  shows "timeouts (teardown (onerror st)) = [(1500, StartSession)]
    \<and> isClosingRef (fireTimeout io 0 (teardown (onerror st)))
    \<and> connects (fireTimeout io 0 (teardown (onerror st))) = Suc (connects st)
    \<and> sessionRef (fireTimeout io 0 (teardown (onerror st))) = Some s"
proof -
  have t: "timeouts (teardown (onerror st)) = [(1500, StartSession)]"
    using assms(1) by (simp add: teardown_keeps_timeouts onerror_registers_retry)
  have c: "connects (teardown (onerror st)) = connects st"
    by (simp add: teardown_def stopActiveSession_def onerror_def Let_def split: option.splits)
  let ?st1 = "teardown (onerror st)\<lparr>timeouts := []\<rparr>"
  have f: "fireTimeout io 0 (teardown (onerror st)) = startSession io ?st1"
    by (simp add: fireTimeout_def t)
  have "isClosingRef ?st1" and "connects ?st1 = connects st"
    using teardown_closing [of "onerror st"] c by simp_all
  then show ?thesis
    using startSession_connects [OF assms(2-4), of ?st1] t f by simp
qed

text \<open>
  C8, evaluated.  The room is mounted and its channel opens; the channel reports an error;
  the room is torn down; then the timeout fires.  The teardown has not cancelled the
  timeout and \<open>startSession\<close> does not look at the closing flag: the torn-down room acquires
  a stream and connects a second session.
\<close>

theorem retry_fires_after_teardown:
  "isClosingRef (teardown (onerror (onopen (mount grantingIO initial_state))))
   \<and> timeouts (teardown (onerror (onopen (mount grantingIO initial_state))))
       = [(1500, StartSession)]
   \<and> connects (teardown (onerror (onopen (mount grantingIO initial_state)))) = 1
   \<and> streamRef (teardown (onerror (onopen (mount grantingIO initial_state)))) = None
   \<and> connects (fireTimeout grantingIO 0
        (teardown (onerror (onopen (mount grantingIO initial_state))))) = 2
   \<and> sessionRef (fireTimeout grantingIO 0
        (teardown (onerror (onopen (mount grantingIO initial_state))))) = Some 1
   \<and> streamRef (fireTimeout grantingIO 0
        (teardown (onerror (onopen (mount grantingIO initial_state))))) = Some 0
   \<and> isClosingRef (fireTimeout grantingIO 0
        (teardown (onerror (onopen (mount grantingIO initial_state)))))"
  by (simp add: fireTimeout_def teardown_def onerror_def onopen_def mount_def startSession_def
      stopActiveSession_def grantingIO_def initial_state_def Let_def)

section \<open>The evaluation report\<close>

text \<open>
  When the evaluation call rejects, or its response text is not valid JSON, the fallback
  report is stored.  A response that parses is stored as it is.  In every case the
  generating flag is cleared.
\<close>

lemma generateReport_outcomes:
  "(result = Rejected \<longrightarrow> examStats (generateReport JSON_parse result st) = fallbackReport)
   \<and> (result = Response t \<and> JSON_parse (responseText t) = Inl e \<longrightarrow>
        examStats (generateReport JSON_parse result st) = fallbackReport)
   \<and> (result = Response t \<and> JSON_parse (responseText t) = Inr stats \<longrightarrow>
        examStats (generateReport JSON_parse result st) = stats)
   \<and> \<not> isGeneratingReport (generateReport JSON_parse result st)"
  by (auto simp: generateReport_def Let_def split: generateContent_result.splits sum.splits)

text \<open>The fallback report has every required field and the report view shows it.\<close>

lemma fallbackReport_shown:
  "hasRequiredFields fallbackReport
   \<and> reportView (generateReport JSON_parse Rejected finishedApp) = None"
  by (simp add: generateReport_def finishedApp_def hasRequiredFields_def requiredFields_def
      fallbackReport_def reportView_def truthy_def property_def isArray_def Let_def)

text \<open>
  C9, evaluated.  The evaluation call resolves to a response without text.  The code
  reads it as \<open>{}\<close>, so the parse succeeds and the empty object is stored as the report:
  it has none of the required fields, it is not the fallback report, and the report view
  throws a \<open>TypeError\<close> on it.
\<close>

theorem generateReport_empty_response:
  "examStats (generateReport parseEmptyObject (Response None) finishedApp) = JObject []
   \<and> \<not> hasRequiredFields (JObject [])
   \<and> JObject [] \<noteq> fallbackReport
   \<and> reportView (generateReport parseEmptyObject (Response None) finishedApp) = Some TypeError"
  by (simp add: generateReport_def parseEmptyObject_def responseText_def finishedApp_def
      hasRequiredFields_def requiredFields_def fallbackReport_def reportView_def truthy_def
      property_def isArray_def Let_def)

end
